theory Spec2Isabelle
  imports Main "HOL-Library.Word" "HOL-Library.Char_ord" "HOL-Library.List_Lexorder"
begin

unbundle bit_operations_syntax

section \<open>Data model of pkg/release\<close>

text \<open>
  The development embeds \<^verbatim>\<open>pkg/release/unpacker.go\<close>. Go strings are byte strings and
  are modelled as \<open>string\<close>; file contents are lists of bytes. Calls to \<^verbatim>\<open>log.Printf\<close>
  only write to the process log, influence no result and are left out.
\<close>

type_synonym byte = "8 word"

text \<open>
  Go errors. The three errors that \<^verbatim>\<open>unpacker.go\<close> builds with \<^verbatim>\<open>fmt.Errorf\<close> have a
  constructor each, carrying the arguments of the format string; \<open>ErrExternal\<close> stands
  for an error handed up by the operating system or by another package.
\<close>

datatype error =
    ErrCannotFindManifests string
  | ErrMultipleManifests string
  | ErrMismatchingChecksum string
  | ErrInspectImageTar string error
  | ErrExternal string

text \<open>
  Modelled from the spec: the types \<^verbatim>\<open>ArtifactMetadata\<close>, \<^verbatim>\<open>StagedArtifact\<close>,
  \<^verbatim>\<open>Metadata\<close> and \<^verbatim>\<open>Staged\<close> of the package are declared outside the files at hand.
  Of \<^verbatim>\<open>ArtifactMetadata\<close> the fields \<open>Name\<close>, \<open>SHA256\<close>, \<open>OS\<close> and \<open>Architecture\<close>
  are the ones \<^verbatim>\<open>gcb_stage.go\<close> fills in and \<^verbatim>\<open>unpacker.go\<close> reads; \<open>Kind\<close> is the
  declared kind of the artifact record of the specification (manifests, server or
  client), which \<^verbatim>\<open>ArtifactsOfKind\<close> compares with the string it is given. Of a staged
  release the pipeline reads its name, its metadata and its artifacts.
\<close>

record ArtifactMetadata =
  Name :: string
  SHA256 :: string
  OS :: string
  Architecture :: string
  Kind :: string

text \<open>
  A storage object handle is modelled by what reading it gives: \<^verbatim>\<open>NewReader\<close> fails, or
  it yields a reader; copying from the reader delivers some bytes and then ends, with
  an error or without.
\<close>

type_synonym Reader = "byte list \<times> error option"

record StagedArtifact =
  Metadata :: ArtifactMetadata
  NewReader :: "error + Reader"

record ReleaseMetadata =
  ReleaseVersion :: string
  GitCommitRef :: string
  Artifacts :: "ArtifactMetadata list"

record Staged =
  name :: string
  metadata :: ReleaseMetadata
  artifacts :: "StagedArtifact list"

text \<open>
  Modelled from the spec: \<^verbatim>\<open>manifests.Chart\<close>, \<^verbatim>\<open>manifests.YAML\<close> and \<^verbatim>\<open>images.Tar\<close> are
  declared outside the files at hand. A chart and a static manifest hold their source
  path; an image descriptor holds its source path, the declared OS and architecture
  and the image name.
\<close>

datatype Chart = Chart (chart_path: string)

datatype YAML = YAML (yaml_path: string)

record Tar =
  tar_path :: string
  tar_os :: string
  tar_architecture :: string
  tar_imageName :: string

type_synonym bundles = "string \<rightharpoonup> Tar list"

record Unpacked =
  Unpacked_ReleaseVersion :: string
  Unpacked_GitCommitRef :: string
  Charts :: "Chart list"
  YAMLs :: "YAML list"
  ComponentImageBundles :: bundles

section \<open>The file system and the other collaborators\<close>

text \<open>
  A directory entry is a file, a directory with its named entries, or an entry the
  walk cannot read (\<^verbatim>\<open>Lstat\<close> or the directory listing fails with the error given).
\<close>

datatype node = File | Dir "(string \<times> node) list" | Broken error

text \<open>
  The state the pipeline works on: the local files with their contents, the directory
  trees that stand at a path, the outcomes of the fallible system calls still to come
  (\<open>None\<close> for success; past the end of the list every call succeeds), the position
  in the stream of random names, and the list of the invocations of the archive
  extractor so far (destination directory and bytes read).
\<close>

record world =
  files :: "string \<rightharpoonup> byte list"
  trees :: "string \<rightharpoonup> node"
  faults :: "error option list"
  rng :: nat
  untar_calls :: "(string \<times> byte list) list"

text \<open>
  What the pipeline is given from outside the repository's code under study: SHA-256,
  the directory for temporary files, the stream of random name suffixes, what the bytes
  of an archive unpack to, what inspecting an image tar or loading a chart at a path
  gives.
\<close>

record env =
  Sum256 :: "byte list \<Rightarrow> byte list"
  temp_root :: string
  next_random :: "nat \<Rightarrow> string"
  untar_content :: "byte list \<Rightarrow> error + (string \<times> node) list"
  inspect_image :: "string \<Rightarrow> error + string"
  load_chart :: "string \<Rightarrow> error option"

definition syscall :: "world \<Rightarrow> error option \<times> world" where
  "syscall w = (case faults w of [] \<Rightarrow> (None, w) | r # rs \<Rightarrow> (r, w\<lparr>faults := rs\<rparr>))"

definition path_exists :: "world \<Rightarrow> string \<Rightarrow> bool" where
  "path_exists w p = (files w p \<noteq> None \<or> trees w p \<noteq> None)"

subsection \<open>path/filepath on a system with separator /\<close>

definition Join :: "string \<Rightarrow> string \<Rightarrow> string" where
  "Join dir elem = dir @ ''/'' @ elem"

text \<open>
  \<^verbatim>\<open>filepath.Ext\<close>: the loop runs \<open>i\<close> from the last index down to the first separator;
  \<open>ext_loop path (Suc i)\<close> is the iteration at index \<open>i\<close>.
\<close>

fun ext_loop :: "string \<Rightarrow> nat \<Rightarrow> string" where
  "ext_loop path 0 = ''''"
| "ext_loop path (Suc i) =
     (if path ! i = CHR ''/'' then ''''
      else if path ! i = CHR ''.'' then drop i path
      else ext_loop path i)"

definition Ext :: "string \<Rightarrow> string" where
  "Ext path = ext_loop path (length path)"

text \<open>\<^verbatim>\<open>filepath.Base\<close>; the volume name is empty on such a system.\<close>

fun strip_trailing_slashes :: "string \<Rightarrow> string" where
  "strip_trailing_slashes path =
     (if path \<noteq> [] \<and> last path = CHR ''/'' then strip_trailing_slashes (butlast path)
      else path)"

declare strip_trailing_slashes.simps [simp del]

fun last_element_loop :: "string \<Rightarrow> nat \<Rightarrow> nat" where
  "last_element_loop path 0 = 0"
| "last_element_loop path (Suc i) =
     (if path ! i \<noteq> CHR ''/'' then last_element_loop path i else Suc i)"

definition Base :: "string \<Rightarrow> string" where
  "Base path =
     (if path = '''' then ''.''
      else let path1 = strip_trailing_slashes path;
               j = last_element_loop path1 (length path1);
               path2 = (if j > 0 then drop j path1 else path1)
           in if path2 = '''' then ''/'' else path2)"

subsection \<open>encoding/hex and crypto/sha256\<close>

definition hextable :: string where
  "hextable = ''0123456789abcdef''"

definition EncodeToString :: "byte list \<Rightarrow> string" where
  "EncodeToString src =
     concat (map (\<lambda>v. [hextable ! unat (drop_bit 4 v), hextable ! unat (v AND 0x0f)]) src)"

subsection \<open>io/ioutil: temporary names\<close>

text \<open>
  \<^verbatim>\<open>ioutil.TempDir\<close> and \<^verbatim>\<open>ioutil.TempFile\<close> draw random suffixes until the name does
  not exist yet, and give up after 10000 conflicts.
\<close>

fun fresh_name :: "env \<Rightarrow> string \<Rightarrow> nat \<Rightarrow> world \<Rightarrow> string option \<times> world" where
  "fresh_name E pattern 0 w = (None, w)"
| "fresh_name E pattern (Suc n) w =
     (let candidate = Join (temp_root E) (pattern @ next_random E (rng w));
          w1 = w\<lparr>rng := Suc (rng w)\<rparr>
      in if path_exists w candidate then fresh_name E pattern n w1 else (Some candidate, w1))"

definition TempDir :: "env \<Rightarrow> string \<Rightarrow> world \<Rightarrow> (error + string) \<times> world" where
  "TempDir E pattern w =
     (case fresh_name E pattern 10000 w of
        (None, w1) \<Rightarrow> (Inl (ErrExternal ''file exists''), w1)
      | (Some candidate, w1) \<Rightarrow>
          (case syscall w1 of
             (Some e, w2) \<Rightarrow> (Inl e, w2)
           | (None, w2) \<Rightarrow> (Inr candidate, w2\<lparr>trees := (trees w2)(candidate \<mapsto> Dir [])\<rparr>)))"

definition TempFile :: "env \<Rightarrow> string \<Rightarrow> world \<Rightarrow> (error + string) \<times> world" where
  "TempFile E pattern w =
     (case fresh_name E pattern 10000 w of
        (None, w1) \<Rightarrow> (Inl (ErrExternal ''file exists''), w1)
      | (Some candidate, w1) \<Rightarrow>
          (case syscall w1 of
             (Some e, w2) \<Rightarrow> (Inl e, w2)
           | (None, w2) \<Rightarrow> (Inr candidate, w2\<lparr>files := (files w2)(candidate \<mapsto> [])\<rparr>)))"

definition read_file :: "world \<Rightarrow> string \<Rightarrow> byte list" where
  "read_file w f = (case files w f of None \<Rightarrow> [] | Some bs \<Rightarrow> bs)"

subsection \<open>path/filepath: Walk\<close>

text \<open>
  \<^verbatim>\<open>filepath.Walk\<close> calls the function it is given on the root and then on every entry
  below it, the entries of a directory in the order of their names, and stops at the
  first call that returns an error. A call gets the path, the file information (here
  whether the entry is a directory; \<open>None\<close> when \<^verbatim>\<open>Lstat\<close> failed) and the error met at
  that path. The sentinel \<^verbatim>\<open>SkipDir\<close> is never returned by the function of
  \<^verbatim>\<open>recursiveFindWithExt\<close> and is not modelled.
\<close>

type_synonym visit = "string \<times> bool option \<times> error option"

fun visits :: "string \<Rightarrow> node \<Rightarrow> visit list" where
  "visits p File = [(p, Some False, None)]"
| "visits p (Broken e) = [(p, None, Some e)]"
| "visits p (Dir es) =
     (p, Some True, None) # concat (map (\<lambda>(n, c). visits (Join p n) c) (sort_key fst es))"

definition Lstat :: "world \<Rightarrow> string \<Rightarrow> node" where
  "Lstat w p =
     (case trees w p of
        Some t \<Rightarrow> t
      | None \<Rightarrow>
          (case files w p of
             Some bs \<Rightarrow> File
           | None \<Rightarrow> Broken (ErrExternal ''no such file or directory'')))"

fun walk_visits :: "(visit \<Rightarrow> 's \<Rightarrow> error option \<times> 's) \<Rightarrow> visit list \<Rightarrow> 's \<Rightarrow> error option \<times> 's" where
  "walk_visits fn [] s = (None, s)"
| "walk_visits fn (v # vs) s =
     (case fn v s of
        (Some e, s1) \<Rightarrow> (Some e, s1)
      | (None, s1) \<Rightarrow> walk_visits fn vs s1)"

definition Walk :: "world \<Rightarrow> string \<Rightarrow> (visit \<Rightarrow> 's \<Rightarrow> error option \<times> 's) \<Rightarrow> 's \<Rightarrow> error option \<times> 's" where
  "Walk w root fn s = walk_visits fn (visits root (Lstat w root)) s"

section \<open>pkg/release/unpacker.go\<close>

text \<open>
  Modelled from the spec: \<^verbatim>\<open>Staged.ArtifactsOfKind\<close> is declared outside the files at
  hand. It returns every artifact whose kind equals the requested value, in the
  release's declared order.
\<close>

definition ArtifactsOfKind :: "Staged \<Rightarrow> string \<Rightarrow> StagedArtifact list" where
  "ArtifactsOfKind s kind = filter (\<lambda>a. Kind (Metadata a) = kind) (artifacts s)"

text \<open>
  Modelled from the spec: \<^verbatim>\<open>tar.UntarGz\<close> is declared outside the files at hand. It
  reads the gzip-compressed tar stream of the open file and writes every entry of the
  archive into the destination directory, or fails. Every invocation is recorded in
  \<open>untar_calls\<close>.
\<close>

definition UntarGz :: "env \<Rightarrow> string \<Rightarrow> string \<Rightarrow> world \<Rightarrow> error option \<times> world" where
  "UntarGz E dest f w =
     (let bs = read_file w f;
          w1 = w\<lparr>untar_calls := untar_calls w @ [(dest, bs)]\<rparr>
      in case untar_content E bs of
           Inl e \<Rightarrow> (Some e, w1)
         | Inr es \<Rightarrow> (None, w1\<lparr>trees := (trees w1)(dest \<mapsto> Dir es)\<rparr>))"

text \<open>
  Modelled from the spec: \<^verbatim>\<open>images.NewTar\<close> is declared outside the files at hand. The
  descriptor holds the source path, the declared OS and architecture, and the image
  name found by inspecting the tar's own metadata.
\<close>

definition NewTar :: "env \<Rightarrow> string \<Rightarrow> string \<Rightarrow> string \<Rightarrow> error + Tar" where
  "NewTar E path os arch =
     (case inspect_image E path of
        Inl e \<Rightarrow> Inl e
      | Inr n \<Rightarrow> Inr \<lparr>tar_path = path, tar_os = os, tar_architecture = arch, tar_imageName = n\<rparr>)"

text \<open>
  Modelled from the spec: \<^verbatim>\<open>manifests.NewChart\<close> and \<^verbatim>\<open>manifests.NewYAML\<close> are declared
  outside the files at hand. A chart and a static manifest hold their source path;
  building a chart can fail.
\<close>

definition NewChart :: "env \<Rightarrow> string \<Rightarrow> error + Chart" where
  "NewChart E path = (case load_chart E path of Some e \<Rightarrow> Inl e | None \<Rightarrow> Inr (Chart path))"

definition NewYAML :: "string \<Rightarrow> YAML" where
  "NewYAML path = YAML path"

subsection \<open>sha256SumFile and extractStagedArtifact\<close>

definition sha256SumFile :: "env \<Rightarrow> string \<Rightarrow> world \<Rightarrow> (error + string) \<times> world" where
  "sha256SumFile E filename w =
     (case syscall w of
        (Some e, w1) \<Rightarrow> (Inl e, w1)
      | (None, w1) \<Rightarrow>
          (case files w1 filename of
             None \<Rightarrow> (Inl (ErrExternal ''no such file or directory''), w1)
           | Some bs \<Rightarrow>
               (case syscall w1 of
                  (Some e, w2) \<Rightarrow> (Inl e, w2)
                | (None, w2) \<Rightarrow> (Inr (EncodeToString (Sum256 E bs)), w2))))"

text \<open>
  \<^verbatim>\<open>io.Copy(f, r)\<close>: the bytes the reader delivers are written to the file; the copy
  fails when the write fails or when the reader ends with an error.
\<close>

definition Copy :: "string \<Rightarrow> Reader \<Rightarrow> world \<Rightarrow> error option \<times> world" where
  "Copy f r w =
     (case syscall w of
        (Some e, w1) \<Rightarrow> (Some e, w1)
      | (None, w1) \<Rightarrow> (snd r, w1\<lparr>files := (files w1)(f \<mapsto> read_file w1 f @ fst r)\<rparr>))"

text \<open>
  The two calls of \<open>syscall\<close> after the copy are \<^verbatim>\<open>f.Sync()\<close> and \<^verbatim>\<open>f.Seek(0, 0)\<close>.
\<close>

definition extractStagedArtifact :: "env \<Rightarrow> StagedArtifact \<Rightarrow> string \<Rightarrow> world \<Rightarrow> error option \<times> world" where
  "extractStagedArtifact E a dest w =
     (case TempFile E ''temp-artifact-'' w of
        (Inl e, w1) \<Rightarrow> (Some e, w1)
      | (Inr f, w1) \<Rightarrow>
     (case NewReader a of
        Inl e \<Rightarrow> (Some e, w1)
      | Inr r \<Rightarrow>
     (case Copy f r w1 of
        (Some e, w2) \<Rightarrow> (Some e, w2)
      | (None, w2) \<Rightarrow>
     (case syscall w2 of
        (Some e, w3) \<Rightarrow> (Some e, w3)
      | (None, w3) \<Rightarrow>
     (case syscall w3 of
        (Some e, w4) \<Rightarrow> (Some e, w4)
      | (None, w4) \<Rightarrow>
     (case sha256SumFile E f w4 of
        (Inl e, w5) \<Rightarrow> (Some e, w5)
      | (Inr downloadedSum, w5) \<Rightarrow>
          if downloadedSum \<noteq> SHA256 (Metadata a)
          then (Some (ErrMismatchingChecksum (Name (Metadata a))), w5)
          else UntarGz E dest f w5))))))"

definition extractStagedArtifactToTempDir :: "env \<Rightarrow> StagedArtifact \<Rightarrow> world \<Rightarrow> (string \<times> error option) \<times> world" where
  "extractStagedArtifactToTempDir E a w =
     (case TempDir E ''extracted-artifact-'' w of
        (Inl e, w1) \<Rightarrow> (('''', Some e), w1)
      | (Inr dest, w1) \<Rightarrow>
          (case extractStagedArtifact E a dest w1 of
             (err, w2) \<Rightarrow> ((dest, err), w2)))"

subsection \<open>manifestArtifactForStaged and recursiveFindWithExt\<close>

definition manifestArtifactForStaged :: "Staged \<Rightarrow> error + StagedArtifact" where
  "manifestArtifactForStaged s =
     (let artifacts = ArtifactsOfKind s ''manifests''
      in if length artifacts = 0 then Inl (ErrCannotFindManifests (name s))
         else if length artifacts > 1 then Inl (ErrMultipleManifests (name s))
         else Inr (artifacts ! 0))"

definition find_fn :: "string \<Rightarrow> visit \<Rightarrow> string list \<Rightarrow> error option \<times> string list" where
  "find_fn ext v paths =
     (case v of (path, info, err) \<Rightarrow>
        (case err of
           Some e \<Rightarrow> (Some e, paths)
         | None \<Rightarrow>
             if info = Some True then (None, paths)
             else if Ext path \<noteq> ext then (None, paths)
             else (None, paths @ [path])))"

definition recursiveFindWithExt :: "world \<Rightarrow> string \<Rightarrow> string \<Rightarrow> error + string list" where
  "recursiveFindWithExt w path ext =
     (case Walk w path (find_fn ext) [] of
        (Some e, paths) \<Rightarrow> Inl e
      | (None, paths) \<Rightarrow> Inr paths)"

subsection \<open>unpackServerImagesFromRelease and Unpack\<close>

text \<open>Reading a Go map at a key it does not hold gives the nil slice.\<close>

definition lookup :: "bundles \<Rightarrow> string \<Rightarrow> Tar list" where
  "lookup m k = (case m k of None \<Rightarrow> [] | Some ts \<Rightarrow> ts)"

definition componentName :: "string \<Rightarrow> string" where
  "componentName archive =
     (let baseName = Base archive
      in take (length baseName - length (Ext baseName)) baseName)"

fun image_loop :: "env \<Rightarrow> StagedArtifact \<Rightarrow> string list \<Rightarrow> bundles \<Rightarrow> error + bundles" where
  "image_loop E a [] tarBundles = Inr tarBundles"
| "image_loop E a (archive # rest) tarBundles =
     (case NewTar E archive (OS (Metadata a)) (Architecture (Metadata a)) of
        Inl e \<Rightarrow> Inl (ErrInspectImageTar archive e)
      | Inr imageTar \<Rightarrow>
          image_loop E a rest
            (tarBundles(componentName archive \<mapsto> lookup tarBundles (componentName archive) @ [imageTar])))"

fun server_loop :: "env \<Rightarrow> StagedArtifact list \<Rightarrow> bundles \<Rightarrow> world \<Rightarrow> (error + bundles) \<times> world" where
  "server_loop E [] tarBundles w = (Inr tarBundles, w)"
| "server_loop E (a # rest) tarBundles w =
     (case extractStagedArtifactToTempDir E a w of
        ((dir, Some e), w1) \<Rightarrow> (Inl e, w1)
      | ((dir, None), w1) \<Rightarrow>
          (case recursiveFindWithExt w1 dir ''.tar'' of
             Inl e \<Rightarrow> (Inl e, w1)
           | Inr imageArchives \<Rightarrow>
               (case image_loop E a imageArchives tarBundles of
                  Inl e \<Rightarrow> (Inl e, w1)
                | Inr tarBundles1 \<Rightarrow> server_loop E rest tarBundles1 w1)))"

definition unpackServerImagesFromRelease :: "env \<Rightarrow> Staged \<Rightarrow> world \<Rightarrow> (error + bundles) \<times> world" where
  "unpackServerImagesFromRelease E s w = server_loop E (ArtifactsOfKind s ''server'') Map.empty w"

fun chart_loop :: "env \<Rightarrow> string list \<Rightarrow> Chart list \<Rightarrow> error + Chart list" where
  "chart_loop E [] charts = Inr charts"
| "chart_loop E (path # rest) charts =
     (case NewChart E path of
        Inl e \<Rightarrow> Inl e
      | Inr c \<Rightarrow> chart_loop E rest (charts @ [c]))"

text \<open>
  \<^verbatim>\<open>Unpack\<close> keeps both Go results, the pointer and the error, so that "a value or an
  error, never both" is a statement about the function and not about its type.
\<close>

definition Unpack :: "env \<Rightarrow> Staged \<Rightarrow> world \<Rightarrow> (Unpacked option \<times> error option) \<times> world" where
  "Unpack E s w =
     (case manifestArtifactForStaged s of
        Inl e \<Rightarrow> ((None, Some e), w)
      | Inr manifestsA \<Rightarrow>
     (case extractStagedArtifactToTempDir E manifestsA w of
        ((manifestsDir, Some e), w1) \<Rightarrow> ((None, Some e), w1)
      | ((manifestsDir, None), w1) \<Rightarrow>
     (case recursiveFindWithExt w1 manifestsDir ''.tgz'' of
        Inl e \<Rightarrow> ((None, Some e), w1)
      | Inr chartPaths \<Rightarrow>
     (case chart_loop E chartPaths [] of
        Inl e \<Rightarrow> ((None, Some e), w1)
      | Inr charts \<Rightarrow>
     (case recursiveFindWithExt w1 manifestsDir ''.yaml'' of
        Inl e \<Rightarrow> ((None, Some e), w1)
      | Inr yamlPaths \<Rightarrow>
     (let yamls = map NewYAML yamlPaths
      in case unpackServerImagesFromRelease E s w1 of
           (Inl e, w2) \<Rightarrow> ((None, Some e), w2)
         | (Inr bundles, w2) \<Rightarrow>
             ((Some \<lparr>Unpacked_ReleaseVersion = ReleaseVersion (metadata s),
                     Unpacked_GitCommitRef = GitCommitRef (metadata s),
                     Charts = charts,
                     YAMLs = yamls,
                     ComponentImageBundles = bundles\<rparr>, None), w2)))))))"

section \<open>Notions used to state the properties\<close>

text \<open>
  A tree is readable when the walk meets no error in it. \<open>file_paths\<close> lists the paths
  of the files (the entries that are not directories) of a tree at a path, directory
  by directory in the order of the names.
\<close>

fun readable :: "node \<Rightarrow> bool" where
  "readable File = True"
| "readable (Broken e) = False"
| "readable (Dir es) = list_all (\<lambda>(n, c). readable c) es"

fun file_paths :: "string \<Rightarrow> node \<Rightarrow> string list" where
  "file_paths p File = [p]"
| "file_paths p (Broken e) = []"
| "file_paths p (Dir es) = concat (map (\<lambda>(n, c). file_paths (Join p n) c) (sort_key fst es))"

text \<open>
  The directories the loop over the server artifacts extracts into, each with the
  state right after the extraction; the image archives the scan finds in each of them;
  the descriptor \<^verbatim>\<open>images.NewTar\<close> builds for an archive of an artifact; and the entries
  a component key is expected to hold: artifact by artifact in the order given, and
  within an artifact in the order of discovery.
\<close>

fun extracted_dirs :: "env \<Rightarrow> StagedArtifact list \<Rightarrow> world \<Rightarrow> (string \<times> world) list" where
  "extracted_dirs E [] w = []"
| "extracted_dirs E (a # rest) w =
     (case extractStagedArtifactToTempDir E a w of
        ((dir, err), w1) \<Rightarrow> (dir, w1) # extracted_dirs E rest w1)"

definition discovered :: "env \<Rightarrow> StagedArtifact list \<Rightarrow> world \<Rightarrow> string list list" where
  "discovered E as w =
     map (\<lambda>(dir, w1). case recursiveFindWithExt w1 dir ''.tar'' of Inl e \<Rightarrow> [] | Inr ps \<Rightarrow> ps)
       (extracted_dirs E as w)"

definition descriptor :: "env \<Rightarrow> StagedArtifact \<Rightarrow> string \<Rightarrow> Tar" where
  "descriptor E a archive =
     \<lparr>tar_path = archive, tar_os = OS (Metadata a), tar_architecture = Architecture (Metadata a),
      tar_imageName = (case inspect_image E archive of Inl e \<Rightarrow> '''' | Inr n \<Rightarrow> n)\<rparr>"

definition expected_bundle :: "env \<Rightarrow> StagedArtifact list \<Rightarrow> string list list \<Rightarrow> string \<Rightarrow> Tar list" where
  "expected_bundle E as pss k =
     concat (map (\<lambda>(a, ps). map (descriptor E a) (filter (\<lambda>p. componentName p = k) ps)) (zip as pss))"

section \<open>Concrete inputs\<close>

text \<open>
  A small environment and staged releases on which the functions are evaluated. The
  stand-in for SHA-256 adds up the bytes; the archives are told apart by their bytes.
\<close>

definition toy_sum :: "byte list \<Rightarrow> byte list" where
  "toy_sum bs = [foldr (+) bs 0]"

definition example_artifact :: "string \<Rightarrow> string \<Rightarrow> string \<Rightarrow> string \<Rightarrow> byte list \<Rightarrow> StagedArtifact" where
  "example_artifact n kind os arch content =
     \<lparr>Metadata = \<lparr>Name = n, SHA256 = EncodeToString (toy_sum content), OS = os,
                  Architecture = arch, Kind = kind\<rparr>,
      NewReader = Inr (content, None)\<rparr>"

definition example_staged :: "StagedArtifact list \<Rightarrow> Staged" where
  "example_staged as =
     \<lparr>name = ''stage/release/v1.0.0'',
      metadata = \<lparr>ReleaseVersion = ''v1.0.0'', GitCommitRef = ''0a1b2c3'', Artifacts = map Metadata as\<rparr>,
      artifacts = as\<rparr>"

definition manifests_artifact :: StagedArtifact where
  "manifests_artifact = example_artifact ''cert-manager-manifests.tar.gz'' ''manifests'' '''' '''' [1]"

definition server_amd64 :: StagedArtifact where
  "server_amd64 = example_artifact ''cert-manager-server-linux-amd64.tar.gz'' ''server'' ''linux'' ''amd64'' [2]"

definition server_arm64 :: StagedArtifact where
  "server_arm64 = example_artifact ''cert-manager-server-linux-arm64.tar.gz'' ''server'' ''linux'' ''arm64'' [3]"

definition example_env :: env where
  "example_env =
     \<lparr>Sum256 = toy_sum,
      temp_root = ''/tmp'',
      next_random = (\<lambda>n. replicate (Suc n) CHR ''7''),
      untar_content = (\<lambda>bs.
        if bs = [1] then Inr [(''deploy'', Dir [(''install.yaml'', File), (''chart.tgz'', File)])]
        else if bs = [2] then Inr [(''controller.tar'', File), (''cainjector.tar'', File)]
        else if bs = [3] then Inr [(''cainjector.tar'', File)]
        else Inl (ErrExternal ''gzip: invalid header'')),
      inspect_image = (\<lambda>p. Inr (''quay.io/jetstack/cert-manager-'' @ componentName p)),
      load_chart = (\<lambda>p. None)\<rparr>"

definition empty_world :: world where
  "empty_world = \<lparr>files = Map.empty, trees = Map.empty, faults = [], rng = 0, untar_calls = []\<rparr>"

definition example_tree :: node where
  "example_tree =
     Dir [(''c'', Dir [(''d.yaml'', File)]), (''b.YAML'', File), (''a.yaml'', File),
          (''conf.yaml'', Dir [(''notes.txt'', File)])]"

definition scan_world :: world where
  "scan_world =
     \<lparr>files = Map.empty, trees = [''/tmp/extracted-artifact-7'' \<mapsto> example_tree],
      faults = [], rng = 0, untar_calls = []\<rparr>"

definition corrupt_artifact :: StagedArtifact where
  "corrupt_artifact = manifests_artifact\<lparr>Metadata := (Metadata manifests_artifact)\<lparr>SHA256 := ''deadbeef''\<rparr>\<rparr>"

text \<open>
  A release with two server artifacts around its manifests artifact, a release with
  the manifests artifact alone, an environment in which no chart loads, and the states
  the pipeline passes through on these inputs: \<open>stored\<close> is the state after an archive
  has been downloaded to a temporary file and unpacked into a temporary directory.
\<close>

definition example_release :: Staged where
  "example_release = example_staged [server_amd64, manifests_artifact, server_arm64]"

definition manifests_only_release :: Staged where
  "manifests_only_release = example_staged [manifests_artifact]"

definition broken_chart_env :: env where
  "broken_chart_env = example_env\<lparr>load_chart := (\<lambda>p. Some (ErrExternal ''chart is not valid''))\<rparr>"

definition stored :: "world \<Rightarrow> string \<Rightarrow> string \<Rightarrow> byte list \<Rightarrow> (string \<times> node) list \<Rightarrow> world" where
  "stored w d f bs es =
     w\<lparr>files := (files w)(f \<mapsto> bs), trees := (trees w)(d \<mapsto> Dir es),
       rng := Suc (Suc (rng w)), untar_calls := untar_calls w @ [(d, bs)]\<rparr>"

definition world1 :: world where
  "world1 = stored empty_world ''/tmp/extracted-artifact-7'' ''/tmp/temp-artifact-77'' [1]
     [(''deploy'', Dir [(''install.yaml'', File), (''chart.tgz'', File)])]"

definition world2 :: world where
  "world2 = stored world1 ''/tmp/extracted-artifact-777'' ''/tmp/temp-artifact-7777'' [2]
     [(''controller.tar'', File), (''cainjector.tar'', File)]"

definition world3 :: world where
  "world3 = stored world2 ''/tmp/extracted-artifact-77777'' ''/tmp/temp-artifact-777777'' [3]
     [(''cainjector.tar'', File)]"

definition example_tar :: "string \<Rightarrow> string \<Rightarrow> string \<Rightarrow> Tar" where
  "example_tar p arch component =
     \<lparr>tar_path = p, tar_os = ''linux'', tar_architecture = arch,
      tar_imageName = ''quay.io/jetstack/cert-manager-'' @ component\<rparr>"

text \<open>
  An environment in which no image archive can be inspected, and the state after the
  extraction of an artifact whose checksum does not match: the temporary directory
  and the downloaded file exist, nothing was unpacked.
\<close>

definition broken_image_env :: env where
  "broken_image_env = example_env\<lparr>inspect_image := (\<lambda>p. Inl (ErrExternal ''not an image archive''))\<rparr>"


text \<open>
  An environment in which the first server archive unpacks to a tree with an entry the
  walk cannot read, and the state after that archive has been unpacked.
\<close>

definition broken_scan_env :: env where
  "broken_scan_env =
     example_env\<lparr>untar_content := (\<lambda>bs.
       if bs = [2] then Inr [(''private'', Broken (ErrExternal ''permission denied'')),
                             (''cainjector.tar'', File)]
       else untar_content example_env bs)\<rparr>"


section \<open>Properties of the path functions\<close>

lemma ext_loop_shape:
  "n \<le> length path \<Longrightarrow>
     ext_loop path n = [] \<or>
     (\<exists>i<n. ext_loop path n = drop i path \<and> path ! i = CHR ''.'' \<and>
        (\<forall>k. i < k \<and> k < n \<longrightarrow> path ! k \<noteq> CHR ''.'' \<and> path ! k \<noteq> CHR ''/''))"
proof (induction n)
  case 0
  then show ?case by simp
next
  case (Suc n)
  then have IH: "ext_loop path n = [] \<or>
     (\<exists>i<n. ext_loop path n = drop i path \<and> path ! i = CHR ''.'' \<and>
        (\<forall>k. i < k \<and> k < n \<longrightarrow> path ! k \<noteq> CHR ''.'' \<and> path ! k \<noteq> CHR ''/''))"
    by simp
  show ?case
  proof (cases "path ! n = CHR ''/'' \<or> path ! n = CHR ''.''")
    case True
    then show ?thesis by auto
  next
    case False
    then have eq: "ext_loop path (Suc n) = ext_loop path n" by simp
    from IH show ?thesis
    proof
      assume "ext_loop path n = []"
      with eq show ?thesis by simp
    next
      assume "\<exists>i<n. ext_loop path n = drop i path \<and> path ! i = CHR ''.'' \<and>
        (\<forall>k. i < k \<and> k < n \<longrightarrow> path ! k \<noteq> CHR ''.'' \<and> path ! k \<noteq> CHR ''/'')"
      then obtain i where i: "i < n" "ext_loop path n = drop i path" "path ! i = CHR ''.''"
        "\<forall>k. i < k \<and> k < n \<longrightarrow> path ! k \<noteq> CHR ''.'' \<and> path ! k \<noteq> CHR ''/''"
        by blast
      have "\<forall>k. i < k \<and> k < Suc n \<longrightarrow> path ! k \<noteq> CHR ''.'' \<and> path ! k \<noteq> CHR ''/''"
        using i(4) False by (auto simp: less_Suc_eq)
      with i eq show ?thesis
        by (intro disjI2 exI [of _ i]) simp
    qed
  qed
qed

lemma Ext_shape:
  "Ext b = [] \<or> (\<exists>e. Ext b = CHR ''.'' # e \<and> CHR ''.'' \<notin> set e \<and> CHR ''/'' \<notin> set e)"
proof -
  from ext_loop_shape [of "length b" b]
  consider "Ext b = []"
    | i where "i < length b" "Ext b = drop i b" "b ! i = CHR ''.''"
        "\<forall>k. i < k \<and> k < length b \<longrightarrow> b ! k \<noteq> CHR ''.'' \<and> b ! k \<noteq> CHR ''/''"
    by (auto simp: Ext_def)
  then show ?thesis
  proof cases
    case 1
    then show ?thesis by simp
  next
    case 2
    have d: "drop i b = b ! i # drop (Suc i) b"
      using 2(1) by (simp add: Cons_nth_drop_Suc)
    have "\<And>c. c \<in> set (drop (Suc i) b) \<Longrightarrow> c \<noteq> CHR ''.'' \<and> c \<noteq> CHR ''/''"
    proof -
      fix c assume "c \<in> set (drop (Suc i) b)"
      then obtain m where "m < length b - Suc i" "c = b ! (Suc i + m)"
        by (auto simp: in_set_conv_nth)
      with 2(4) show "c \<noteq> CHR ''.'' \<and> c \<noteq> CHR ''/''" by simp
    qed
    then have "CHR ''.'' \<notin> set (drop (Suc i) b) \<and> CHR ''/'' \<notin> set (drop (Suc i) b)"
      by blast
    with 2 d show ?thesis by simp
  qed
qed

lemma Ext_suffix: "take (length b - length (Ext b)) b @ Ext b = b"
proof -
  from ext_loop_shape [of "length b" b]
  consider "Ext b = []" | i where "i < length b" "Ext b = drop i b"
    by (auto simp: Ext_def)
  then show ?thesis
  proof cases
    case 1
    then show ?thesis by simp
  next
    case 2
    then show ?thesis by simp
  qed
qed

lemma last_element_loop_props:
  "n \<le> length path \<Longrightarrow>
     last_element_loop path n \<le> n \<and>
     (last_element_loop path n = 0 \<or> path ! (last_element_loop path n - 1) = CHR ''/'') \<and>
     (\<forall>k. last_element_loop path n \<le> k \<and> k < n \<longrightarrow> path ! k \<noteq> CHR ''/'')"
proof (induction n)
  case 0
  then show ?case by simp
next
  case (Suc n)
  then show ?case
    by (auto simp: less_Suc_eq)
qed

lemma Base_split:
  assumes "path \<noteq> []" "last path \<noteq> CHR ''/''"
  shows "\<exists>dir. path = dir @ Base path \<and> CHR ''/'' \<notin> set (Base path) \<and> (dir = [] \<or> last dir = CHR ''/'')"
proof -
  define j where "j = last_element_loop path (length path)"
  have st: "strip_trailing_slashes path = path"
    using assms by (simp add: strip_trailing_slashes.simps)
  from last_element_loop_props [of "length path" path]
  have j1: "j \<le> length path"
    and j2: "j = 0 \<or> path ! (j - 1) = CHR ''/''"
    and j3: "\<And>k. j \<le> k \<Longrightarrow> k < length path \<Longrightarrow> path ! k \<noteq> CHR ''/''"
    by (auto simp: j_def)
  have "j \<noteq> length path"
  proof
    assume "j = length path"
    with j2 assms show False by (auto simp: last_conv_nth)
  qed
  with j1 have jl: "j < length path" by simp
  then have ne: "drop j path \<noteq> []" by simp
  have B: "Base path = drop j path"
    using assms ne by (simp add: Base_def st Let_def j_def [symmetric])
  have "CHR ''/'' \<notin> set (drop j path)"
    using j3 by (auto simp: in_set_conv_nth)
  moreover have "take j path = [] \<or> last (take j path) = CHR ''/''"
  proof (cases "j = 0")
    case True
    then show ?thesis by simp
  next
    case False
    then have "take j path \<noteq> []" using jl by auto
    then have "last (take j path) = path ! (j - 1)"
      using jl False by (simp add: last_conv_nth)
    with j2 False show ?thesis by simp
  qed
  ultimately show ?thesis
    using B by (intro exI [of _ "take j path"]) simp
qed

lemma ext_loop_append:
  assumes "CHR ''/'' \<notin> set b" "dir = [] \<or> last dir = CHR ''/''"
  shows "n \<le> length b \<Longrightarrow> ext_loop (dir @ b) (length dir + n) = ext_loop b n"
proof (induction n)
  case 0
  show ?case
  proof (cases dir rule: rev_cases)
    case Nil
    then show ?thesis by simp
  next
    case (snoc ys y)
    with assms have "y = CHR ''/''" by simp
    with snoc show ?thesis by (simp add: nth_append)
  qed
next
  case (Suc n)
  then have "b ! n \<in> set b" by simp
  with assms have "b ! n \<noteq> CHR ''/''" by metis
  with Suc show ?case by (simp add: nth_append)
qed

lemma Ext_append:
  "CHR ''/'' \<notin> set b \<Longrightarrow> dir = [] \<or> last dir = CHR ''/'' \<Longrightarrow> Ext (dir @ b) = Ext b"
  using ext_loop_append [of b dir "length b"] by (simp add: Ext_def)

lemma Ext_last_not_sep:
  assumes "Ext path \<noteq> []" shows "path \<noteq> [] \<and> last path \<noteq> CHR ''/''"
proof (cases path rule: rev_cases)
  case Nil
  with assms show ?thesis by (simp add: Ext_def)
next
  case (snoc ys y)
  with assms show ?thesis by (auto simp: Ext_def nth_append)
qed

lemmas path_eval = componentName_def Base_def Ext_def strip_trailing_slashes.simps Let_def

section \<open>Component names\<close>

text \<open>
  C6. An image archive found by the scan for \<^verbatim>\<open>.tar\<close> has a path of the form
  directory part, stem, \<^verbatim>\<open>.tar\<close>, where the stem holds no separator; its component name
  is exactly that stem, the base filename with the extension taken off and nothing
  else changed, and the inner loop files the image under that key.
\<close>

theorem componentName_is_base_without_extension:
  assumes "Ext archive = ''.tar''"
  shows "componentName archive @ ''.tar'' = Base archive \<and>
         CHR ''/'' \<notin> set (componentName archive) \<and>
         (\<exists>dir. archive = dir @ componentName archive @ ''.tar'' \<and> (dir = [] \<or> last dir = CHR ''/'')) \<and>
         image_loop E a [archive] tarBundles =
           (case NewTar E archive (OS (Metadata a)) (Architecture (Metadata a)) of
              Inl e \<Rightarrow> Inl (ErrInspectImageTar archive e)
            | Inr imageTar \<Rightarrow>
                Inr (tarBundles(componentName archive \<mapsto>
                       lookup tarBundles (componentName archive) @ [imageTar])))"
proof -
  from assms have "Ext archive \<noteq> []" by simp
  then have "archive \<noteq> []" "last archive \<noteq> CHR ''/''"
    using Ext_last_not_sep by blast+
  then obtain dir where d: "archive = dir @ Base archive" "CHR ''/'' \<notin> set (Base archive)"
    "dir = [] \<or> last dir = CHR ''/''"
    using Base_split by blast
  have "Ext (Base archive) = Ext (dir @ Base archive)"
    using Ext_append [OF d(2,3)] by simp
  with d(1) assms have e: "Ext (Base archive) = ''.tar''" by simp
  have c: "componentName archive @ ''.tar'' = Base archive"
    using Ext_suffix [of "Base archive"] by (simp add: componentName_def Let_def e)
  then have "set (componentName archive) \<subseteq> set (Base archive)"
    by (metis set_append Un_upper1)
  with d(2) have "CHR ''/'' \<notin> set (componentName archive)" by blast
  moreover have "archive = dir @ componentName archive @ ''.tar''"
    using d(1) c by simp
  moreover have "image_loop E a [archive] tarBundles =
           (case NewTar E archive (OS (Metadata a)) (Architecture (Metadata a)) of
              Inl e \<Rightarrow> Inl (ErrInspectImageTar archive e)
            | Inr imageTar \<Rightarrow>
                Inr (tarBundles(componentName archive \<mapsto>
                       lookup tarBundles (componentName archive) @ [imageTar])))"
    by (simp split: sum.splits)
  ultimately show ?thesis using c d(3) by blast
qed

theorem componentName_is_base_without_extension_witness:
  "Ext ''/tmp/extracted-artifact-7/images/cainjector-amd64.tar'' = ''.tar'' \<and>
   Base ''/tmp/extracted-artifact-7/images/cainjector-amd64.tar'' = ''cainjector-amd64.tar'' \<and>
   componentName ''/tmp/extracted-artifact-7/images/cainjector-amd64.tar'' = ''cainjector-amd64''"
proof -
  let ?p = "''/tmp/extracted-artifact-7/images/cainjector-amd64.tar''"
  have h: "Ext ?p = ''.tar''" by (simp add: Ext_def)
  have b: "Base ?p = ''cainjector-amd64.tar''" by (simp add: path_eval)
  from componentName_is_base_without_extension [OF h]
  have "componentName ?p @ ''.tar'' = Base ?p" by blast
  with b have "componentName ?p = ''cainjector-amd64''" by simp
  with h b show ?thesis by blast
qed

text \<open>
  C10. Only the final extension of the base filename is taken off: \<^verbatim>\<open>foo.bar.tar\<close> gives
  the component \<^verbatim>\<open>foo.bar\<close>, and a file whose base name is exactly \<^verbatim>\<open>.tar\<close> gives the
  empty component name. In general the base filename is the component name followed
  by its extension, and an extension holds at most its leading dot.
\<close>

theorem componentName_strips_final_extension_only:
  "componentName ''foo.bar.tar'' = ''foo.bar'' \<and>
   componentName ''/tmp/extracted-artifact-7/foo.bar.tar'' = ''foo.bar'' \<and>
   componentName ''.tar'' = '''' \<and>
   componentName ''/tmp/extracted-artifact-7/.tar'' = '''' \<and>
   (\<forall>archive. componentName archive @ Ext (Base archive) = Base archive) \<and>
   (\<forall>b. length (filter (\<lambda>c. c = CHR ''.'') (Ext b)) \<le> 1)"
proof -
  have "componentName ''foo.bar.tar'' = ''foo.bar''" by (simp add: path_eval)
  moreover have "componentName ''/tmp/extracted-artifact-7/foo.bar.tar'' = ''foo.bar''"
    by (simp add: path_eval)
  moreover have "componentName ''.tar'' = ''''" by (simp add: path_eval)
  moreover have "componentName ''/tmp/extracted-artifact-7/.tar'' = ''''"
    by (simp add: path_eval)
  moreover have "\<forall>archive. componentName archive @ Ext (Base archive) = Base archive"
    using Ext_suffix by (simp add: componentName_def Let_def)
  moreover have "\<forall>b. length (filter (\<lambda>c. c = CHR ''.'') (Ext b)) \<le> 1"
  proof
    fix b
    from Ext_shape [of b] show "length (filter (\<lambda>c. c = CHR ''.'') (Ext b)) \<le> 1"
      by (auto simp: filter_empty_conv)
  qed
  ultimately show ?thesis by blast
qed

section \<open>Selecting the manifests artifact\<close>

text \<open>
  C3. Resolving the manifests artifact of a staged release gives the "cannot find"
  error with the release's name when no artifact has kind manifests, the "found
  multiple" error with the release's name when more than one has, and the artifact
  itself when exactly one has.
\<close>

theorem manifestArtifactForStaged_cardinality:
  "(ArtifactsOfKind s ''manifests'' = [] \<longrightarrow>
      manifestArtifactForStaged s = Inl (ErrCannotFindManifests (name s))) \<and>
   (length (ArtifactsOfKind s ''manifests'') > 1 \<longrightarrow>
      manifestArtifactForStaged s = Inl (ErrMultipleManifests (name s))) \<and>
   (\<forall>a. ArtifactsOfKind s ''manifests'' = [a] \<longrightarrow> manifestArtifactForStaged s = Inr a)"
  by (simp add: manifestArtifactForStaged_def Let_def)

theorem manifestArtifactForStaged_cardinality_witness:
  "manifestArtifactForStaged (example_staged [server_amd64]) =
     Inl (ErrCannotFindManifests ''stage/release/v1.0.0'') \<and>
   manifestArtifactForStaged (example_staged [manifests_artifact, server_amd64, manifests_artifact]) =
     Inl (ErrMultipleManifests ''stage/release/v1.0.0'') \<and>
   manifestArtifactForStaged (example_staged [server_amd64, manifests_artifact, server_arm64]) =
     Inr manifests_artifact"
proof -
  have k: "Kind (Metadata manifests_artifact) = ''manifests''"
    "Kind (Metadata server_amd64) = ''server''" "Kind (Metadata server_arm64) = ''server''"
    by (simp_all add: manifests_artifact_def server_amd64_def server_arm64_def example_artifact_def)
  have h0: "ArtifactsOfKind (example_staged [server_amd64]) ''manifests'' = []"
    by (simp add: ArtifactsOfKind_def example_staged_def k)
  have h2: "length (ArtifactsOfKind
      (example_staged [manifests_artifact, server_amd64, manifests_artifact]) ''manifests'') > 1"
    by (simp add: ArtifactsOfKind_def example_staged_def k)
  have h1: "ArtifactsOfKind
      (example_staged [server_amd64, manifests_artifact, server_arm64]) ''manifests'' =
      [manifests_artifact]"
    by (simp add: ArtifactsOfKind_def example_staged_def k)
  have n: "\<And>as. name (example_staged as) = ''stage/release/v1.0.0''"
    by (simp add: example_staged_def)
  from manifestArtifactForStaged_cardinality [of "example_staged [server_amd64]"] h0
  have "manifestArtifactForStaged (example_staged [server_amd64]) =
     Inl (ErrCannotFindManifests ''stage/release/v1.0.0'')"
    by (simp add: n)
  moreover from manifestArtifactForStaged_cardinality
    [of "example_staged [manifests_artifact, server_amd64, manifests_artifact]"] h2
  have "manifestArtifactForStaged (example_staged [manifests_artifact, server_amd64, manifests_artifact]) =
     Inl (ErrMultipleManifests ''stage/release/v1.0.0'')"
    by (simp add: n)
  moreover from manifestArtifactForStaged_cardinality
    [of "example_staged [server_amd64, manifests_artifact, server_arm64]"] h1
  have "manifestArtifactForStaged (example_staged [server_amd64, manifests_artifact, server_arm64]) =
     Inr manifests_artifact"
    by simp
  ultimately show ?thesis by blast
qed

section \<open>The recursive scan\<close>

lemma walk_visits_ok:
  "(\<forall>v\<in>set vs. snd (snd v) = None) \<Longrightarrow>
   walk_visits (find_fn ext) vs acc =
     (None, acc @ map fst (filter (\<lambda>v. fst (snd v) \<noteq> Some True \<and> Ext (fst v) = ext) vs))"
  by (induction vs arbitrary: acc) (auto simp: find_fn_def)

lemma walk_visits_err:
  "(\<exists>v\<in>set vs. snd (snd v) \<noteq> None) \<Longrightarrow>
   \<exists>e s. walk_visits (find_fn ext) vs acc = (Some e, s)"
proof (induction vs arbitrary: acc)
  case Nil
  then show ?case by simp
next
  case (Cons v vs)
  obtain p i er where v: "v = (p, i, er)" by (cases v)
  show ?case
  proof (cases er)
    case (Some e)
    with v show ?thesis by (simp add: find_fn_def)
  next
    case None
    with v Cons.prems have "\<exists>v\<in>set vs. snd (snd v) \<noteq> None" by auto
    from Cons.IH [OF this] show ?thesis
      using v None by (auto simp: find_fn_def)
  qed
qed

lemma readable_visits:
  "readable t \<longleftrightarrow> (\<forall>v\<in>set (visits p t). snd (snd v) = None)"
proof (induction p t rule: visits.induct)
  case (1 p)
  then show ?case by simp
next
  case (2 p e)
  then show ?case by simp
next
  case (3 p es)
  have IH: "\<And>n c. (n, c) \<in> set es \<Longrightarrow>
      readable c = (\<forall>v\<in>set (visits (Join p n) c). snd (snd v) = None)"
  proof -
    fix n c assume "(n, c) \<in> set es"
    then have "(n, c) \<in> set (sort_key fst es)" by simp
    from "3.IH" [OF this refl] show
      "readable c = (\<forall>v\<in>set (visits (Join p n) c). snd (snd v) = None)" .
  qed
  have "list_all (\<lambda>(n, c). readable c) es \<longleftrightarrow>
        (\<forall>x\<in>set es. \<forall>v\<in>set (visits (Join p (fst x)) (snd x)). snd (snd v) = None)"
    using IH by (fastforce simp: list_all_iff)
  then show ?case by (auto simp: case_prod_beta)
qed

lemma visits_info:
  "(q, i, None) \<in> set (visits p t) \<Longrightarrow> i \<noteq> None"
proof (induction p t rule: visits.induct)
  case (1 p)
  then show ?case by auto
next
  case (2 p e)
  then show ?case by simp
next
  case (3 p es)
  from "3.prems" consider "i = Some True"
    | n c where "(n, c) \<in> set (sort_key fst es)" "(q, i, None) \<in> set (visits (Join p n) c)"
    by auto
  then show ?case
  proof cases
    case 1
    then show ?thesis by simp
  next
    case 2
    from "3.IH" [OF 2(1) refl 2(2)] show ?thesis .
  qed
qed

lemma visits_file_paths:
  "readable t \<Longrightarrow>
   map fst (filter (\<lambda>v. fst (snd v) \<noteq> Some True \<and> Ext (fst v) = ext) (visits p t)) =
   filter (\<lambda>q. Ext q = ext) (file_paths p t)"
proof (induction p t rule: visits.induct)
  case (1 p)
  then show ?case by simp
next
  case (2 p e)
  then show ?case by simp
next
  case (3 p es)
  have "\<And>x. x \<in> set (sort_key fst es) \<Longrightarrow>
     map fst (filter (\<lambda>v. fst (snd v) \<noteq> Some True \<and> Ext (fst v) = ext) (visits (Join p (fst x)) (snd x))) =
     filter (\<lambda>q. Ext q = ext) (file_paths (Join p (fst x)) (snd x))"
  proof -
    fix x assume x: "x \<in> set (sort_key fst es)"
    obtain n c where nc: "x = (n, c)" by (cases x)
    from x 3(2) have "readable c" by (auto simp: list_all_iff nc)
    from 3(1) [OF x nc [symmetric] this]
    show "map fst (filter (\<lambda>v. fst (snd v) \<noteq> Some True \<and> Ext (fst v) = ext) (visits (Join p (fst x)) (snd x))) =
       filter (\<lambda>q. Ext q = ext) (file_paths (Join p (fst x)) (snd x))"
      by (simp add: nc)
  qed
  then have "map (\<lambda>x. map fst (filter (\<lambda>v. fst (snd v) \<noteq> Some True \<and> Ext (fst v) = ext)
                 (visits (Join p (fst x)) (snd x)))) (sort_key fst es) =
        map (\<lambda>x. filter (\<lambda>q. Ext q = ext) (file_paths (Join p (fst x)) (snd x))) (sort_key fst es)"
    by (intro map_cong refl)
  then have M: "concat (map (\<lambda>x. map fst (filter (\<lambda>v. fst (snd v) \<noteq> Some True \<and> Ext (fst v) = ext)
                 (visits (Join p (fst x)) (snd x)))) (sort_key fst es)) =
        concat (map (\<lambda>x. filter (\<lambda>q. Ext q = ext) (file_paths (Join p (fst x)) (snd x))) (sort_key fst es))"
    by (rule arg_cong)
  have L: "map fst (filter (\<lambda>v. fst (snd v) \<noteq> Some True \<and> Ext (fst v) = ext) (visits p (Dir es))) =
      concat (map (\<lambda>x. map fst (filter (\<lambda>v. fst (snd v) \<noteq> Some True \<and> Ext (fst v) = ext)
                 (visits (Join p (fst x)) (snd x)))) (sort_key fst es))"
    by (simp add: filter_concat map_concat comp_def case_prod_beta)
  have R: "filter (\<lambda>q. Ext q = ext) (file_paths p (Dir es)) =
      concat (map (\<lambda>x. filter (\<lambda>q. Ext q = ext) (file_paths (Join p (fst x)) (snd x))) (sort_key fst es))"
    by (simp add: filter_concat comp_def case_prod_beta)
  show ?case by (simp only: L R M)
qed

lemma recursiveFindWithExt_readable:
  assumes "readable (Lstat w root)"
  shows "recursiveFindWithExt w root ext =
           Inr (filter (\<lambda>p. Ext p = ext) (file_paths root (Lstat w root)))"
proof -
  from assms have "\<forall>v\<in>set (visits root (Lstat w root)). snd (snd v) = None"
    using readable_visits by blast
  from walk_visits_ok [OF this, of ext "[]"] visits_file_paths [OF assms, of ext root]
  show ?thesis by (simp add: recursiveFindWithExt_def Walk_def)
qed

lemma recursiveFindWithExt_unreadable:
  assumes "\<not> readable (Lstat w root)"
  shows "\<exists>e. recursiveFindWithExt w root ext = Inl e"
proof -
  from assms have "\<exists>v\<in>set (visits root (Lstat w root)). snd (snd v) \<noteq> None"
    using readable_visits by blast
  from walk_visits_err [OF this, of ext "[]"] show ?thesis
    by (auto simp: recursiveFindWithExt_def Walk_def)
qed

lemma recursiveFindWithExt_files_only:
  assumes "recursiveFindWithExt w root ext = Inr ps" "q \<in> set ps"
  shows "(q, Some False, None) \<in> set (visits root (Lstat w root)) \<and> Ext q = ext"
proof -
  have r: "readable (Lstat w root)"
    using assms(1) recursiveFindWithExt_unreadable [of w root ext] by auto
  then have ok: "\<forall>v\<in>set (visits root (Lstat w root)). snd (snd v) = None"
    using readable_visits by blast
  from walk_visits_ok [OF ok, of ext "[]"] assms(1)
  have "ps = map fst (filter (\<lambda>v. fst (snd v) \<noteq> Some True \<and> Ext (fst v) = ext)
                 (visits root (Lstat w root)))"
    by (simp add: recursiveFindWithExt_def Walk_def)
  with assms(2) obtain i er where v: "(q, i, er) \<in> set (visits root (Lstat w root))"
    "i \<noteq> Some True" "Ext q = ext"
    by auto
  from ok v(1) have er: "er = None" by auto
  with v(1) visits_info have "i \<noteq> None" by blast
  with v(2) have "i = Some False" by (cases i) auto
  with v er show ?thesis by simp
qed

text \<open>
  C5. On a tree the walk can read, the scan returns exactly the files below the root
  whose extension equals the requested one, compared as strings, in the order of the
  walk; this is the empty list, and no error, when no file matches. Every path it
  returns was reported by the walk as an entry that is not a directory. On a tree the
  walk cannot read, the scan returns an error.
\<close>

theorem recursiveFindWithExt_exact:
  "(readable (Lstat w root) \<longrightarrow>
      recursiveFindWithExt w root ext =
        Inr (filter (\<lambda>p. Ext p = ext) (file_paths root (Lstat w root)))) \<and>
   (\<forall>ps q. recursiveFindWithExt w root ext = Inr ps \<and> q \<in> set ps \<longrightarrow>
      (q, Some False, None) \<in> set (visits root (Lstat w root)) \<and> Ext q = ext) \<and>
   (\<not> readable (Lstat w root) \<longrightarrow> (\<exists>e. recursiveFindWithExt w root ext = Inl e))"
  using recursiveFindWithExt_readable recursiveFindWithExt_unreadable
    recursiveFindWithExt_files_only
  by blast

theorem recursiveFindWithExt_exact_witness:
  "readable (Lstat scan_world ''/tmp/extracted-artifact-7'') \<and>
   recursiveFindWithExt scan_world ''/tmp/extracted-artifact-7'' ''.yaml'' =
     Inr [''/tmp/extracted-artifact-7/a.yaml'', ''/tmp/extracted-artifact-7/c/d.yaml''] \<and>
   recursiveFindWithExt scan_world ''/tmp/extracted-artifact-7'' ''.tgz'' = Inr [] \<and>
   \<not> readable (Lstat scan_world ''/tmp/extracted-artifact-8'') \<and>
   (\<exists>e. recursiveFindWithExt scan_world ''/tmp/extracted-artifact-8'' ''.yaml'' = Inl e)"
proof -
  let ?d = "''/tmp/extracted-artifact-7''"
  have t: "Lstat scan_world ?d = example_tree"
    by (simp add: Lstat_def scan_world_def)
  have r: "readable (Lstat scan_world ?d)"
    by (simp add: t) (simp add: example_tree_def)
  have y: "filter (\<lambda>p. Ext p = ''.yaml'') (file_paths ?d example_tree) =
      [''/tmp/extracted-artifact-7/a.yaml'', ''/tmp/extracted-artifact-7/c/d.yaml'']"
    by (simp add: example_tree_def Join_def Ext_def)
  have z: "filter (\<lambda>p. Ext p = ''.tgz'') (file_paths ?d example_tree) = []"
    by (simp add: example_tree_def Join_def Ext_def)
  have n: "\<not> readable (Lstat scan_world ''/tmp/extracted-artifact-8'')"
    by (simp add: Lstat_def scan_world_def)
  from recursiveFindWithExt_exact [of scan_world ?d "''.yaml''"] r
  have 1: "recursiveFindWithExt scan_world ?d ''.yaml'' =
     Inr [''/tmp/extracted-artifact-7/a.yaml'', ''/tmp/extracted-artifact-7/c/d.yaml'']"
    by (simp add: t y)
  from recursiveFindWithExt_exact [of scan_world ?d "''.tgz''"] r
  have 2: "recursiveFindWithExt scan_world ?d ''.tgz'' = Inr []"
    by (simp add: t z)
  from recursiveFindWithExt_exact [of scan_world "''/tmp/extracted-artifact-8''" "''.yaml''"] n
  have 3: "\<exists>e. recursiveFindWithExt scan_world ''/tmp/extracted-artifact-8'' ''.yaml'' = Inl e"
    by blast
  from r 1 2 n 3 show ?thesis by blast
qed

section \<open>Effects of the operations on the state\<close>

lemma syscall_frame:
  "syscall w = (r, w') \<Longrightarrow>
     files w' = files w \<and> trees w' = trees w \<and> untar_calls w' = untar_calls w \<and> rng w' = rng w"
  by (auto simp: syscall_def split: list.splits)

lemma path_exists_cong:
  "files w' = files w \<Longrightarrow> trees w' = trees w \<Longrightarrow> path_exists w' = path_exists w"
  by (auto simp: path_exists_def fun_eq_iff)

lemma fresh_name_frame:
  "fresh_name E pattern n w = (r, w') \<Longrightarrow>
     files w' = files w \<and> trees w' = trees w \<and> untar_calls w' = untar_calls w \<and>
     faults w' = faults w \<and> (\<forall>d. r = Some d \<longrightarrow> \<not> path_exists w d)"
proof (induction n arbitrary: w)
  case 0
  then show ?case by simp
next
  case (Suc n)
  let ?c = "Join (temp_root E) (pattern @ next_random E (rng w))"
  let ?w1 = "w\<lparr>rng := Suc (rng w)\<rparr>"
  show ?case
  proof (cases "path_exists w ?c")
    case True
    with Suc.prems have "fresh_name E pattern n ?w1 = (r, w')" by (simp add: Let_def)
    from Suc.IH [OF this] show ?thesis by (simp add: path_exists_def)
  next
    case False
    with Suc.prems show ?thesis by (auto simp: Let_def)
  qed
qed

lemma TempFile_frame:
  assumes "TempFile E pattern w = (r, w')"
  shows "trees w' = trees w \<and> untar_calls w' = untar_calls w \<and>
         (case r of Inl e \<Rightarrow> files w' = files w
          | Inr f \<Rightarrow> \<not> path_exists w f \<and> files w' = (files w)(f \<mapsto> []))"
proof -
  obtain r1 w1 where f: "fresh_name E pattern 10000 w = (r1, w1)" by fastforce
  note ff = fresh_name_frame [OF f]
  show ?thesis
  proof (cases r1)
    case None
    with assms f ff show ?thesis by (auto simp: TempFile_def)
  next
    case (Some d)
    obtain r2 w2 where s: "syscall w1 = (r2, w2)" by (cases "syscall w1")
    note sf = syscall_frame [OF s]
    from assms f Some s ff sf show ?thesis
      by (cases r2) (auto simp: TempFile_def)
  qed
qed

lemma TempDir_frame:
  assumes "TempDir E pattern w = (r, w')"
  shows "files w' = files w \<and> untar_calls w' = untar_calls w \<and>
         (case r of Inl e \<Rightarrow> trees w' = trees w
          | Inr d \<Rightarrow> \<not> path_exists w d \<and> trees w' = (trees w)(d \<mapsto> Dir []))"
proof -
  obtain r1 w1 where f: "fresh_name E pattern 10000 w = (r1, w1)" by fastforce
  note ff = fresh_name_frame [OF f]
  show ?thesis
  proof (cases r1)
    case None
    with assms f ff show ?thesis by (auto simp: TempDir_def)
  next
    case (Some d)
    obtain r2 w2 where s: "syscall w1 = (r2, w2)" by (cases "syscall w1")
    note sf = syscall_frame [OF s]
    from assms f Some s ff sf show ?thesis
      by (cases r2) (auto simp: TempDir_def)
  qed
qed

lemma Copy_frame:
  assumes "Copy f r w = (res, w')"
  shows "trees w' = trees w \<and> untar_calls w' = untar_calls w \<and>
         (res = None \<longrightarrow> snd r = None \<and> files w' = (files w)(f \<mapsto> read_file w f @ fst r)) \<and>
         (\<forall>p. p \<noteq> f \<longrightarrow> files w' p = files w p)"
proof -
  obtain r2 w2 where s: "syscall w = (r2, w2)" by (cases "syscall w")
  note sf = syscall_frame [OF s]
  from assms s sf show ?thesis
    by (cases r2) (auto simp: Copy_def read_file_def)
qed

lemma sha256SumFile_frame:
  assumes "sha256SumFile E f w = (res, w')"
  shows "files w' = files w \<and> trees w' = trees w \<and> untar_calls w' = untar_calls w \<and>
         (\<forall>sum. res = Inr sum \<longrightarrow> (\<exists>bs. files w f = Some bs \<and> sum = EncodeToString (Sum256 E bs)))"
proof -
  obtain r1 w1 where s1: "syscall w = (r1, w1)" by (cases "syscall w")
  obtain r2 w2 where s2: "syscall w1 = (r2, w2)" by (cases "syscall w1")
  note f1 = syscall_frame [OF s1] and f2 = syscall_frame [OF s2]
  from assms s1 s2 f1 f2 show ?thesis
    by (cases r1; cases r2; cases "files w f") (auto simp: sha256SumFile_def)
qed

lemma UntarGz_frame:
  assumes "UntarGz E dest f w = (res, w')"
  shows "files w' = files w \<and> untar_calls w' = untar_calls w @ [(dest, read_file w f)] \<and>
         (case res of Some e \<Rightarrow> untar_content E (read_file w f) = Inl e \<and> trees w' = trees w
          | None \<Rightarrow> \<exists>es. untar_content E (read_file w f) = Inr es \<and> trees w' = (trees w)(dest \<mapsto> Dir es))"
  using assms by (auto simp: UntarGz_def Let_def split: sum.splits)

lemma extractStagedArtifact_cases:
  assumes "extractStagedArtifact E a dest w = (res, w')"
  shows "(\<forall>p. files w p \<noteq> None \<longrightarrow> files w' p = files w p) \<and>
         ((res \<noteq> None \<and> untar_calls w' = untar_calls w \<and> trees w' = trees w) \<or>
          (\<exists>bs. NewReader a = Inr (bs, None) \<and>
             EncodeToString (Sum256 E bs) = SHA256 (Metadata a) \<and>
             untar_calls w' = untar_calls w @ [(dest, bs)] \<and>
             (case res of
                Some e \<Rightarrow> untar_content E bs = Inl e \<and> trees w' = trees w
              | None \<Rightarrow> \<exists>es. untar_content E bs = Inr es \<and> trees w' = (trees w)(dest \<mapsto> Dir es))))"
proof -
  obtain r1 w1 where t: "TempFile E ''temp-artifact-'' w = (r1, w1)"
    by (cases "TempFile E ''temp-artifact-'' w")
  note tf = TempFile_frame [OF t]
  show ?thesis
  proof (cases r1)
    case (Inl e)
    with assms t tf show ?thesis by (auto simp: extractStagedArtifact_def)
  next
    case (Inr f)
    with tf have fresh: "\<not> path_exists w f" and f1: "files w1 = (files w)(f \<mapsto> [])"
      and t1: "trees w1 = trees w" and u1: "untar_calls w1 = untar_calls w"
      by auto
    from fresh have keep1: "\<forall>p. files w p \<noteq> None \<longrightarrow> p \<noteq> f"
      by (auto simp: path_exists_def)
    show ?thesis
    proof (cases "NewReader a")
      case (Inl e)
      with assms t Inr f1 t1 u1 keep1 show ?thesis
        by (auto simp: extractStagedArtifact_def)
    next
      case rd: (Inr r)
      obtain r2 w2 where c: "Copy f r w1 = (r2, w2)" by (cases "Copy f r w1")
      note cf = Copy_frame [OF c]
      have keep2: "\<forall>p. files w p \<noteq> None \<longrightarrow> files w2 p = files w p"
        using cf keep1 f1 by auto
      show ?thesis
      proof (cases r2)
        case (Some e)
        with assms t Inr rd c cf t1 u1 keep2 show ?thesis
          by (auto simp: extractStagedArtifact_def)
      next
        case None
        with cf have r: "snd r = None" and f2: "files w2 = (files w1)(f \<mapsto> read_file w1 f @ fst r)"
          by auto
        have f2': "files w2 f = Some (fst r)"
          using f2 f1 by (simp add: read_file_def)
        obtain r3 w3 where s3: "syscall w2 = (r3, w3)" by (cases "syscall w2")
        obtain r4 w4 where s4: "syscall w3 = (r4, w4)" by (cases "syscall w3")
        obtain r5 w5 where h: "sha256SumFile E f w4 = (r5, w5)" by (cases "sha256SumFile E f w4")
        note g3 = syscall_frame [OF s3] and g4 = syscall_frame [OF s4]
          and g5 = sha256SumFile_frame [OF h]
        have w5: "files w5 = files w2" "trees w5 = trees w" "untar_calls w5 = untar_calls w"
          using g3 g4 g5 cf t1 u1 by auto
        show ?thesis
        proof (cases r3)
          case (Some e)
          with assms t Inr rd c None s3 g3 cf t1 u1 keep2 show ?thesis
            by (auto simp: extractStagedArtifact_def)
        next
          case n3: None
          show ?thesis
          proof (cases r4)
            case (Some e)
            with assms t Inr rd c None s3 n3 s4 g3 g4 cf t1 u1 keep2 show ?thesis
              by (auto simp: extractStagedArtifact_def)
          next
            case n4: None
            show ?thesis
            proof (cases r5)
              case (Inl e)
              with assms t Inr rd c None s3 n3 s4 n4 h w5 keep2 show ?thesis
                by (auto simp: extractStagedArtifact_def)
            next
              case sm: (Inr sum)
              with g5 g3 g4 f2' have sum: "sum = EncodeToString (Sum256 E (fst r))"
                by auto
              show ?thesis
              proof (cases "sum \<noteq> SHA256 (Metadata a)")
                case True
                with assms t Inr rd c None s3 n3 s4 n4 h sm w5 keep2 show ?thesis
                  by (auto simp: extractStagedArtifact_def)
              next
                case False
                with assms t Inr rd c None s3 n3 s4 n4 h sm
                have u: "UntarGz E dest f w5 = (res, w')"
                  by (auto simp: extractStagedArtifact_def)
                note uf = UntarGz_frame [OF u]
                have rf: "read_file w5 f = fst r"
                  using w5 f2' by (simp add: read_file_def)
                have "NewReader a = Inr (fst r, None)"
                  using rd r by (cases r) auto
                moreover have "EncodeToString (Sum256 E (fst r)) = SHA256 (Metadata a)"
                  using False sum by simp
                ultimately have "\<exists>bs. NewReader a = Inr (bs, None) \<and>
                    EncodeToString (Sum256 E bs) = SHA256 (Metadata a) \<and>
                    untar_calls w' = untar_calls w @ [(dest, bs)] \<and>
                    (case res of
                       Some e \<Rightarrow> untar_content E bs = Inl e \<and> trees w' = trees w
                     | None \<Rightarrow> \<exists>es. untar_content E bs = Inr es \<and>
                         trees w' = (trees w)(dest \<mapsto> Dir es))"
                  using uf rf w5
                  by (intro exI [of _ "fst r"]) (auto split: option.splits)
                moreover have "\<forall>p. files w p \<noteq> None \<longrightarrow> files w' p = files w p"
                  using uf w5 keep2 by auto
                ultimately show ?thesis by blast
              qed
            qed
          qed
        qed
      qed
    qed
  qed
qed

section \<open>Checksum verification before extraction\<close>

lemma fresh_name_numeral:
  "fresh_name E pattern (numeral k) w =
     (let candidate = Join (temp_root E) (pattern @ next_random E (rng w));
          w1 = w\<lparr>rng := Suc (rng w)\<rparr>
      in if path_exists w candidate then fresh_name E pattern (pred_numeral k) w1 else (Some candidate, w1))"
  by (simp add: numeral_eq_Suc)

lemmas ex_defs = example_env_def empty_world_def manifests_artifact_def server_amd64_def server_arm64_def
  example_artifact_def example_staged_def toy_sum_def

lemma fresh_name_faults:
  "fresh_name E pattern n w = (r, w') \<Longrightarrow> faults w' = faults w"
  using fresh_name_frame by blast

lemma extractStagedArtifact_mismatch:
  assumes nr: "NewReader a = Inr (bs, None)"
    and ne: "EncodeToString (Sum256 E bs) \<noteq> SHA256 (Metadata a)"
    and nf: "faults w = []"
    and fr: "fst (fresh_name E ''temp-artifact-'' 10000 w) \<noteq> None"
  shows "fst (extractStagedArtifact E a dest w) = Some (ErrMismatchingChecksum (Name (Metadata a)))"
proof -
  obtain r1 w1 where f: "fresh_name E ''temp-artifact-'' 10000 w = (r1, w1)" by fastforce
  with fr obtain c where c: "r1 = Some c" by auto
  from fresh_name_frame [OF f] c nf have w1: "faults w1 = []" "\<not> path_exists w c" "files w1 = files w"
    by auto
  then have fc: "files w1 c = None" by (simp add: path_exists_def)
  show ?thesis
    using f c w1(1) nr ne
    by (simp add: extractStagedArtifact_def TempFile_def syscall_def Copy_def sha256SumFile_def
        read_file_def fc)
qed

text \<open>
  C1. When the bytes downloaded for an artifact hash (SHA-256, in lowercase hex) to a
  value different from the declared one, extraction fails, the archive extractor is
  not invoked and no directory tree changes; when the download to disk and the hashing
  meet no fault of their own, the error is the checksum error that carries the
  artifact's name. Whenever the extractor is invoked, it is invoked once, on bytes
  whose digest equals the declared one.
\<close>

theorem extractStagedArtifact_refuses_mismatch:
  assumes "extractStagedArtifact E a dest w = (res, w')"
  shows "(\<forall>bs. NewReader a = Inr (bs, None) \<and> EncodeToString (Sum256 E bs) \<noteq> SHA256 (Metadata a) \<longrightarrow>
            res \<noteq> None \<and> untar_calls w' = untar_calls w \<and> trees w' = trees w \<and>
            (faults w = [] \<and> fst (fresh_name E ''temp-artifact-'' 10000 w) \<noteq> None \<longrightarrow>
               res = Some (ErrMismatchingChecksum (Name (Metadata a))))) \<and>
         (untar_calls w' \<noteq> untar_calls w \<longrightarrow>
            (\<exists>bs. NewReader a = Inr (bs, None) \<and>
               EncodeToString (Sum256 E bs) = SHA256 (Metadata a) \<and>
               untar_calls w' = untar_calls w @ [(dest, bs)]))"
proof -
  note c = extractStagedArtifact_cases [OF assms]
  have 1: "\<forall>bs. NewReader a = Inr (bs, None) \<and> EncodeToString (Sum256 E bs) \<noteq> SHA256 (Metadata a) \<longrightarrow>
            res \<noteq> None \<and> untar_calls w' = untar_calls w \<and> trees w' = trees w \<and>
            (faults w = [] \<and> fst (fresh_name E ''temp-artifact-'' 10000 w) \<noteq> None \<longrightarrow>
               res = Some (ErrMismatchingChecksum (Name (Metadata a))))"
  proof (intro allI impI)
    fix bs
    assume h: "NewReader a = Inr (bs, None) \<and> EncodeToString (Sum256 E bs) \<noteq> SHA256 (Metadata a)"
    with c have "res \<noteq> None \<and> untar_calls w' = untar_calls w \<and> trees w' = trees w"
      by auto
    moreover have "faults w = [] \<and> fst (fresh_name E ''temp-artifact-'' 10000 w) \<noteq> None \<longrightarrow>
               res = Some (ErrMismatchingChecksum (Name (Metadata a)))"
      using extractStagedArtifact_mismatch [of a bs E w dest] h assms by auto
    ultimately show "res \<noteq> None \<and> untar_calls w' = untar_calls w \<and> trees w' = trees w \<and>
            (faults w = [] \<and> fst (fresh_name E ''temp-artifact-'' 10000 w) \<noteq> None \<longrightarrow>
               res = Some (ErrMismatchingChecksum (Name (Metadata a))))"
      by blast
  qed
  have 2: "untar_calls w' \<noteq> untar_calls w \<longrightarrow>
            (\<exists>bs. NewReader a = Inr (bs, None) \<and>
               EncodeToString (Sum256 E bs) = SHA256 (Metadata a) \<and>
               untar_calls w' = untar_calls w @ [(dest, bs)])"
    using c by auto
  from 1 2 show ?thesis by blast
qed

theorem extractStagedArtifact_refuses_mismatch_witness:
  "NewReader corrupt_artifact = Inr ([1], None) \<and>
   EncodeToString (Sum256 example_env [1]) = ''01'' \<and>
   SHA256 (Metadata corrupt_artifact) = ''deadbeef'' \<and>
   fst (extractStagedArtifact example_env corrupt_artifact ''/tmp/extracted-artifact-7'' empty_world) =
     Some (ErrMismatchingChecksum ''cert-manager-manifests.tar.gz'') \<and>
   untar_calls (snd (extractStagedArtifact example_env corrupt_artifact ''/tmp/extracted-artifact-7'' empty_world)) = []"
proof -
  let ?r = "extractStagedArtifact example_env corrupt_artifact ''/tmp/extracted-artifact-7'' empty_world"
  have a: "NewReader corrupt_artifact = Inr ([1], None)"
    by (simp add: corrupt_artifact_def ex_defs)
  have b: "EncodeToString (Sum256 example_env [1]) = ''01''"
    by (simp add: ex_defs EncodeToString_def hextable_def)
  have c: "SHA256 (Metadata corrupt_artifact) = ''deadbeef''"
    by (simp add: corrupt_artifact_def)
  have d: "faults empty_world = []" "untar_calls empty_world = []"
    by (simp_all add: empty_world_def)
  have e: "fst (fresh_name example_env ''temp-artifact-'' 10000 empty_world) \<noteq> None"
    by (simp add: fresh_name_numeral path_exists_def empty_world_def Let_def)
  have n: "Name (Metadata corrupt_artifact) = ''cert-manager-manifests.tar.gz''"
    by (simp add: corrupt_artifact_def ex_defs)
  have "?r = (fst ?r, snd ?r)" by simp
  from extractStagedArtifact_refuses_mismatch [OF this] a b c d e n
  have "fst ?r = Some (ErrMismatchingChecksum ''cert-manager-manifests.tar.gz'') \<and>
        untar_calls (snd ?r) = []"
    by auto
  with a b c show ?thesis by blast
qed

section \<open>Steps of the pipeline\<close>

lemma extractStagedArtifact_grows:
  assumes "extractStagedArtifact E a dest w = (res, w')"
  shows "(\<forall>p. path_exists w p \<longrightarrow> path_exists w' p) \<and>
         (\<forall>p. trees w p \<noteq> None \<longrightarrow> trees w' p \<noteq> None)"
proof -
  note c = extractStagedArtifact_cases [OF assms]
  then have f: "\<forall>p. files w p \<noteq> None \<longrightarrow> files w' p \<noteq> None" by auto
  from c have "trees w' = trees w \<or> (\<exists>es. trees w' = (trees w)(dest \<mapsto> Dir es))"
    by (auto split: option.splits)
  then have t: "\<forall>p. trees w p \<noteq> None \<longrightarrow> trees w' p \<noteq> None" by auto
  from f t show ?thesis by (auto simp: path_exists_def)
qed

lemma extractStagedArtifactToTempDir_step:
  assumes "extractStagedArtifactToTempDir E a w = ((dest, res), w')"
  shows "(\<forall>p. path_exists w p \<longrightarrow> path_exists w' p) \<and>
         (\<forall>p. trees w p \<noteq> None \<longrightarrow> trees w' p \<noteq> None) \<and>
         ((res \<noteq> None \<and> untar_calls w' = untar_calls w) \<or>
          (\<exists>bs. NewReader a = Inr (bs, None) \<and>
             EncodeToString (Sum256 E bs) = SHA256 (Metadata a) \<and>
             untar_calls w' = untar_calls w @ [(dest, bs)] \<and>
             \<not> path_exists w dest \<and> trees w' dest \<noteq> None))"
proof -
  obtain r1 w1 where t: "TempDir E ''extracted-artifact-'' w = (r1, w1)" by fastforce
  note tf = TempDir_frame [OF t]
  show ?thesis
  proof (cases r1)
    case (Inl e)
    with assms t tf show ?thesis
      by (auto simp: extractStagedArtifactToTempDir_def path_exists_def)
  next
    case (Inr d)
    obtain r2 w2 where x: "extractStagedArtifact E a d w1 = (r2, w2)" by fastforce
    from assms t Inr x have eq: "dest = d" "res = r2" "w' = w2"
      by (auto simp: extractStagedArtifactToTempDir_def)
    from tf Inr have fresh: "\<not> path_exists w d" and t1: "trees w1 = (trees w)(d \<mapsto> Dir [])"
      and f1: "files w1 = files w" and u1: "untar_calls w1 = untar_calls w"
      by auto
    have g1: "(\<forall>p. path_exists w p \<longrightarrow> path_exists w1 p) \<and>
              (\<forall>p. trees w p \<noteq> None \<longrightarrow> trees w1 p \<noteq> None)"
      using t1 f1 by (auto simp: path_exists_def)
    note g2 = extractStagedArtifact_grows [OF x]
    have d1: "trees w1 d \<noteq> None" using t1 by simp
    with g2 have d2: "trees w2 d \<noteq> None" by blast
    from extractStagedArtifact_cases [OF x]
    have "(r2 \<noteq> None \<and> untar_calls w2 = untar_calls w1) \<or>
          (\<exists>bs. NewReader a = Inr (bs, None) \<and>
             EncodeToString (Sum256 E bs) = SHA256 (Metadata a) \<and>
             untar_calls w2 = untar_calls w1 @ [(d, bs)])"
      by blast
    with g1 g2 fresh d2 u1 show ?thesis
      unfolding eq by auto
  qed
qed

lemma at_most_one_call:
  assumes "untar_calls w1 = untar_calls w \<or>
        (\<exists>bs. untar_calls w1 = untar_calls w @ [(dir, bs)] \<and> \<not> path_exists w dir \<and> trees w1 dir \<noteq> None)"
  shows "\<exists>new. untar_calls w1 = untar_calls w @ new \<and> distinct (map fst new) \<and>
      (\<forall>d\<in>set (map fst new). \<not> path_exists w d \<and> trees w1 d \<noteq> None)"
  using assms
proof
  assume "untar_calls w1 = untar_calls w"
  then show ?thesis by (intro exI [of _ "[]"]) simp
next
  assume "\<exists>bs. untar_calls w1 = untar_calls w @ [(dir, bs)] \<and> \<not> path_exists w dir \<and> trees w1 dir \<noteq> None"
  then obtain bs where "untar_calls w1 = untar_calls w @ [(dir, bs)]" "\<not> path_exists w dir"
    "trees w1 dir \<noteq> None"
    by blast
  then show ?thesis by (intro exI [of _ "[(dir, bs)]"]) simp
qed

lemma server_loop_directories:
  "server_loop E as tb w = (r, w') \<Longrightarrow>
     (\<forall>p. path_exists w p \<longrightarrow> path_exists w' p) \<and>
     (\<forall>p. trees w p \<noteq> None \<longrightarrow> trees w' p \<noteq> None) \<and>
     (\<exists>new. untar_calls w' = untar_calls w @ new \<and> distinct (map fst new) \<and>
        (\<forall>d\<in>set (map fst new). \<not> path_exists w d \<and> trees w' d \<noteq> None) \<and>
        (\<forall>tb'. r = Inr tb' \<longrightarrow> map (\<lambda>c. Inr (snd c, None)) new = map NewReader as))"
proof (induction as arbitrary: tb w)
  case Nil
  then show ?case by auto
next
  case (Cons a rest)
  obtain dir res w1 where x: "extractStagedArtifactToTempDir E a w = ((dir, res), w1)"
    by (metis surj_pair)
  note st = extractStagedArtifactToTempDir_step [OF x]
  have stop: "w' = w1 \<and> (\<forall>tb'. r \<noteq> Inr tb') \<Longrightarrow> ?case"
  proof -
    assume a: "w' = w1 \<and> (\<forall>tb'. r \<noteq> Inr tb')"
    from st have "untar_calls w1 = untar_calls w \<or>
        (\<exists>bs. untar_calls w1 = untar_calls w @ [(dir, bs)] \<and> \<not> path_exists w dir \<and> trees w1 dir \<noteq> None)"
      by auto
    from at_most_one_call [OF this]
    obtain new where "untar_calls w1 = untar_calls w @ new" "distinct (map fst new)"
      "\<forall>d\<in>set (map fst new). \<not> path_exists w d \<and> trees w1 d \<noteq> None"
      by blast
    with st a show ?case by blast
  qed
  show ?case
  proof (cases res)
    case (Some e)
    with Cons.prems x have "w' = w1 \<and> (\<forall>tb'. r \<noteq> Inr tb')" by auto
    then show ?thesis by (rule stop)
  next
    case None
    with st obtain bs where bs: "NewReader a = Inr (bs, None)"
      "untar_calls w1 = untar_calls w @ [(dir, bs)]" "\<not> path_exists w dir" "trees w1 dir \<noteq> None"
      by auto
    show ?thesis
    proof (cases "recursiveFindWithExt w1 dir ''.tar''")
      case (Inl e)
      with Cons.prems x None have "w' = w1 \<and> (\<forall>tb'. r \<noteq> Inr tb')" by auto
      then show ?thesis by (rule stop)
    next
      case (Inr imageArchives)
      show ?thesis
      proof (cases "image_loop E a imageArchives tb")
        case (Inl e)
        with Cons.prems x None Inr have "w' = w1 \<and> (\<forall>tb'. r \<noteq> Inr tb')" by auto
        then show ?thesis by (rule stop)
      next
        case tb1: (Inr tb1)
        with Cons.prems x None Inr have rec: "server_loop E rest tb1 w1 = (r, w')" by simp
        from Cons.IH [OF rec] obtain new where new:
          "\<forall>p. path_exists w1 p \<longrightarrow> path_exists w' p"
          "\<forall>p. trees w1 p \<noteq> None \<longrightarrow> trees w' p \<noteq> None"
          "untar_calls w' = untar_calls w1 @ new" "distinct (map fst new)"
          "\<forall>d\<in>set (map fst new). \<not> path_exists w1 d \<and> trees w' d \<noteq> None"
          "\<forall>tb'. r = Inr tb' \<longrightarrow> map (\<lambda>c. Inr (snd c, None)) new = map NewReader rest"
          by blast
        have ex1: "path_exists w1 dir" using bs(4) by (simp add: path_exists_def)
        with new(5) have notin: "dir \<notin> set (map fst new)" by blast
        let ?new = "(dir, bs) # new"
        have "untar_calls w' = untar_calls w @ ?new" using bs(2) new(3) by simp
        moreover have "distinct (map fst ?new)" using notin new(4) by simp
        moreover have "\<forall>d\<in>set (map fst ?new). \<not> path_exists w d \<and> trees w' d \<noteq> None"
          using bs(3,4) new(2,5) st by auto
        moreover have "\<forall>tb'. r = Inr tb' \<longrightarrow> map (\<lambda>c. Inr (snd c, None)) ?new = map NewReader (a # rest)"
          using new(6) bs(1) by simp
        moreover have "\<forall>p. path_exists w p \<longrightarrow> path_exists w' p" using st new(1) by blast
        moreover have "\<forall>p. trees w p \<noteq> None \<longrightarrow> trees w' p \<noteq> None" using st new(2) by blast
        ultimately show ?thesis by blast
      qed
    qed
  qed
qed

lemma image_loop_lookup:
  "image_loop E a ps tb = Inr tb' \<Longrightarrow>
     lookup tb' k = lookup tb k @ map (descriptor E a) (filter (\<lambda>p. componentName p = k) ps) \<and>
     (tb' k = None \<longleftrightarrow> tb k = None \<and> filter (\<lambda>p. componentName p = k) ps = [])"
proof (induction ps arbitrary: tb)
  case Nil
  then show ?case by simp
next
  case (Cons p ps)
  from Cons.prems obtain t where t: "NewTar E p (OS (Metadata a)) (Architecture (Metadata a)) = Inr t"
    by (auto split: sum.splits)
  then have td: "t = descriptor E a p"
    by (auto simp: NewTar_def descriptor_def split: sum.splits)
  let ?tb1 = "tb(componentName p \<mapsto> lookup tb (componentName p) @ [t])"
  from Cons.prems t have "image_loop E a ps ?tb1 = Inr tb'" by simp
  from Cons.IH [OF this] show ?case
    by (auto simp: td lookup_def)
qed

lemma server_loop_lookup:
  "server_loop E as tb w = (Inr tb', w') \<Longrightarrow>
     lookup tb' k = lookup tb k @ expected_bundle E as (discovered E as w) k \<and>
     (tb' k = None \<longleftrightarrow> tb k = None \<and> expected_bundle E as (discovered E as w) k = [])"
proof (induction as arbitrary: tb w)
  case Nil
  then show ?case by (simp add: expected_bundle_def discovered_def)
next
  case (Cons a rest)
  obtain dir res w1 where x: "extractStagedArtifactToTempDir E a w = ((dir, res), w1)"
    by (metis surj_pair)
  from Cons.prems x have res: "res = None" by (cases res) auto
  from Cons.prems x res obtain ps where ps: "recursiveFindWithExt w1 dir ''.tar'' = Inr ps"
    by (cases "recursiveFindWithExt w1 dir ''.tar''") auto
  from Cons.prems x res ps obtain tb1 where tb1: "image_loop E a ps tb = Inr tb1"
    by (cases "image_loop E a ps tb") auto
  from Cons.prems x res ps tb1 have rec: "server_loop E rest tb1 w1 = (Inr tb', w')" by simp
  have d: "discovered E (a # rest) w = ps # discovered E rest w1"
    using x ps by (simp add: discovered_def)
  have e: "expected_bundle E (a # rest) (ps # discovered E rest w1) k =
      map (descriptor E a) (filter (\<lambda>p. componentName p = k) ps) @
      expected_bundle E rest (discovered E rest w1) k"
    by (simp add: expected_bundle_def)
  from image_loop_lookup [OF tb1, of k] Cons.IH [OF rec] show ?case
    by (simp add: d e)
qed

lemma chart_loop_ok:
  "\<forall>p\<in>set ps. load_chart E p = None \<Longrightarrow> chart_loop E ps acc = Inr (acc @ map Chart ps)"
  by (induction ps arbitrary: acc) (simp_all add: NewChart_def)




lemma fresh_name_first:
  "\<not> path_exists w (Join (temp_root E) (pattern @ next_random E (rng w))) \<Longrightarrow>
   fresh_name E pattern 10000 w =
     (Some (Join (temp_root E) (pattern @ next_random E (rng w))), w\<lparr>rng := Suc (rng w)\<rparr>)"
  by (simp add: fresh_name_numeral Let_def)

lemma extractStagedArtifactToTempDir_ok:
  assumes nf: "faults w = []"
    and d: "d = Join (temp_root E) (''extracted-artifact-'' @ next_random E (rng w))"
    and f: "f = Join (temp_root E) (''temp-artifact-'' @ next_random E (Suc (rng w)))"
    and fd: "\<not> path_exists w d" and ff: "\<not> path_exists w f" and ne: "f \<noteq> d"
    and nr: "NewReader a = Inr (bs, None)"
    and sum: "EncodeToString (Sum256 E bs) = SHA256 (Metadata a)"
    and un: "untar_content E bs = Inr es"
  shows "extractStagedArtifactToTempDir E a w =
     ((d, None),
      w\<lparr>files := (files w)(f \<mapsto> bs), trees := (trees w)(d \<mapsto> Dir es),
        rng := Suc (Suc (rng w)), untar_calls := untar_calls w @ [(d, bs)]\<rparr>)"
proof -
  let ?w1 = "w\<lparr>rng := Suc (rng w)\<rparr>"
  let ?w2 = "?w1\<lparr>trees := (trees w)(d \<mapsto> Dir [])\<rparr>"
  have fn1: "fresh_name E ''extracted-artifact-'' 10000 w = (Some d, ?w1)"
    using fresh_name_first [of w E "''extracted-artifact-''"] fd by (simp add: d)
  have td: "TempDir E ''extracted-artifact-'' w = (Inr d, ?w2)"
    using nf by (simp add: TempDir_def fn1 syscall_def)
  let ?w3 = "?w2\<lparr>rng := Suc (Suc (rng w))\<rparr>"
  let ?w4 = "?w3\<lparr>files := (files w)(f \<mapsto> [])\<rparr>"
  have ff2: "\<not> path_exists ?w2 f"
    using ff ne by (simp add: path_exists_def)
  have fn2: "fresh_name E ''temp-artifact-'' 10000 ?w2 = (Some f, ?w3)"
    using fresh_name_first [of ?w2 E "''temp-artifact-''"] ff2 by (simp add: f)
  have ex: "extractStagedArtifact E a d ?w2 =
      (None, w\<lparr>files := (files w)(f \<mapsto> bs), trees := (trees w)(d \<mapsto> Dir es),
        rng := Suc (Suc (rng w)), untar_calls := untar_calls w @ [(d, bs)]\<rparr>)"
    using nf nr sum un
    by (simp add: extractStagedArtifact_def TempFile_def fn2 syscall_def Copy_def
        sha256SumFile_def read_file_def UntarGz_def Let_def)
  show ?thesis
    using ex by (simp add: extractStagedArtifactToTempDir_def td)
qed







section \<open>The pipeline on the concrete inputs\<close>

lemma stored_sel [simp]:
  "files (stored w d f bs es) = (files w)(f \<mapsto> bs)"
  "trees (stored w d f bs es) = (trees w)(d \<mapsto> Dir es)"
  "faults (stored w d f bs es) = faults w"
  "rng (stored w d f bs es) = Suc (Suc (rng w))"
  "untar_calls (stored w d f bs es) = untar_calls w @ [(d, bs)]"
  by (simp_all add: stored_def)

lemma empty_world_sel [simp]:
  "files empty_world = Map.empty" "trees empty_world = Map.empty" "faults empty_world = []"
  "rng empty_world = 0" "untar_calls empty_world = []"
  by (simp_all add: empty_world_def)

lemma example_env_sel [simp]:
  "Sum256 example_env = toy_sum" "temp_root example_env = ''/tmp''"
  "next_random example_env n = replicate (Suc n) CHR ''7''"
  "untar_content example_env [1] = Inr [(''deploy'', Dir [(''install.yaml'', File), (''chart.tgz'', File)])]"
  "untar_content example_env [2] = Inr [(''controller.tar'', File), (''cainjector.tar'', File)]"
  "untar_content example_env [3] = Inr [(''cainjector.tar'', File)]"
  "inspect_image example_env p = Inr (''quay.io/jetstack/cert-manager-'' @ componentName p)"
  "load_chart example_env p = None"
  by (simp_all add: example_env_def)

lemma broken_chart_env_sel [simp]:
  "Sum256 broken_chart_env = toy_sum" "temp_root broken_chart_env = ''/tmp''"
  "next_random broken_chart_env n = replicate (Suc n) CHR ''7''"
  "untar_content broken_chart_env = untar_content example_env"
  "load_chart broken_chart_env p = Some (ErrExternal ''chart is not valid'')"
  by (simp_all add: broken_chart_env_def example_env_def)

lemma example_artifact_sel [simp]:
  "NewReader (example_artifact n k os arch bs) = Inr (bs, None)"
  "SHA256 (Metadata (example_artifact n k os arch bs)) = EncodeToString (toy_sum bs)"
  "Name (Metadata (example_artifact n k os arch bs)) = n"
  "Kind (Metadata (example_artifact n k os arch bs)) = k"
  "OS (Metadata (example_artifact n k os arch bs)) = os"
  "Architecture (Metadata (example_artifact n k os arch bs)) = arch"
  by (simp_all add: example_artifact_def)

lemma extract_example:
  assumes "Sum256 E = toy_sum" "temp_root E = ''/tmp''"
    "\<And>n. next_random E n = replicate (Suc n) CHR ''7''"
    "untar_content E = untar_content example_env"
  shows "extractStagedArtifactToTempDir E manifests_artifact empty_world =
           ((''/tmp/extracted-artifact-7'', None), world1)"
    and "extractStagedArtifactToTempDir E server_amd64 world1 =
           ((''/tmp/extracted-artifact-777'', None), world2)"
    and "extractStagedArtifactToTempDir E server_arm64 world2 =
           ((''/tmp/extracted-artifact-77777'', None), world3)"
proof -
  show "extractStagedArtifactToTempDir E manifests_artifact empty_world =
           ((''/tmp/extracted-artifact-7'', None), world1)"
    unfolding world1_def stored_def
    by (rule extractStagedArtifactToTempDir_ok [where bs = "[1]", THEN trans])
      (simp_all add: assms manifests_artifact_def Join_def path_exists_def)
  show "extractStagedArtifactToTempDir E server_amd64 world1 =
           ((''/tmp/extracted-artifact-777'', None), world2)"
    unfolding world2_def stored_def
    by (rule extractStagedArtifactToTempDir_ok [where bs = "[2]", THEN trans])
      (simp_all add: assms server_amd64_def Join_def path_exists_def world1_def)
  show "extractStagedArtifactToTempDir E server_arm64 world2 =
           ((''/tmp/extracted-artifact-77777'', None), world3)"
    unfolding world3_def stored_def
    by (rule extractStagedArtifactToTempDir_ok [where bs = "[3]", THEN trans])
      (simp_all add: assms server_arm64_def Join_def path_exists_def world2_def world1_def)
qed

lemmas scan_defs = recursiveFindWithExt_def Walk_def Lstat_def find_fn_def Join_def Ext_def

lemma scan_example:
  "recursiveFindWithExt world1 ''/tmp/extracted-artifact-7'' ''.tgz'' =
     Inr [''/tmp/extracted-artifact-7/deploy/chart.tgz'']"
  "recursiveFindWithExt world1 ''/tmp/extracted-artifact-7'' ''.yaml'' =
     Inr [''/tmp/extracted-artifact-7/deploy/install.yaml'']"
  "recursiveFindWithExt world2 ''/tmp/extracted-artifact-777'' ''.tar'' =
     Inr [''/tmp/extracted-artifact-777/cainjector.tar'', ''/tmp/extracted-artifact-777/controller.tar'']"
  "recursiveFindWithExt world3 ''/tmp/extracted-artifact-77777'' ''.tar'' =
     Inr [''/tmp/extracted-artifact-77777/cainjector.tar'']"
  by (simp_all add: scan_defs world1_def world2_def world3_def)

lemma servers_example: "ArtifactsOfKind example_release ''server'' = [server_amd64, server_arm64]"
  "ArtifactsOfKind example_release ''manifests'' = [manifests_artifact]"
  by (simp_all add: ArtifactsOfKind_def example_release_def example_staged_def
      server_amd64_def server_arm64_def manifests_artifact_def)

lemma component_example:
  "componentName ''/tmp/extracted-artifact-777/cainjector.tar'' = ''cainjector''"
  "componentName ''/tmp/extracted-artifact-777/controller.tar'' = ''controller''"
  "componentName ''/tmp/extracted-artifact-77777/cainjector.tar'' = ''cainjector''"
  by (simp_all add: path_eval)

lemma servers_run:
  "\<exists>tb. unpackServerImagesFromRelease example_env example_release world1 = (Inr tb, world3)"
  by (simp add: unpackServerImagesFromRelease_def servers_example extract_example scan_example
      NewTar_def)

lemma discovered_example:
  "discovered example_env [server_amd64, server_arm64] world1 =
     [[''/tmp/extracted-artifact-777/cainjector.tar'', ''/tmp/extracted-artifact-777/controller.tar''],
      [''/tmp/extracted-artifact-77777/cainjector.tar'']]"
  by (simp add: discovered_def extract_example scan_example)

lemma release_sel [simp]:
  "name (example_staged as) = ''stage/release/v1.0.0''"
  "ReleaseVersion (metadata (example_staged as)) = ''v1.0.0''"
  "GitCommitRef (metadata (example_staged as)) = ''0a1b2c3''"
  "artifacts (example_staged as) = as"
  by (simp_all add: example_staged_def)

lemma manifests_example:
  "manifestArtifactForStaged example_release = Inr manifests_artifact"
  "manifestArtifactForStaged manifests_only_release = Inr manifests_artifact"
  "manifestArtifactForStaged (example_staged [server_amd64]) =
     Inl (ErrCannotFindManifests ''stage/release/v1.0.0'')"
  "ArtifactsOfKind manifests_only_release ''manifests'' = [manifests_artifact]"
  "ArtifactsOfKind manifests_only_release ''server'' = []"
  by (simp_all add: manifestArtifactForStaged_def ArtifactsOfKind_def example_release_def
      manifests_only_release_def server_amd64_def server_arm64_def manifests_artifact_def)

lemma unpack_run:
  "\<exists>u. Unpack example_env example_release empty_world = ((Some u, None), world3)"
proof -
  from servers_run obtain tb where
    "unpackServerImagesFromRelease example_env example_release world1 = (Inr tb, world3)"
    by blast
  then show ?thesis
    by (simp add: Unpack_def manifests_example extract_example scan_example NewChart_def)
qed

lemma unpack_broken_chart:
  "Unpack broken_chart_env manifests_only_release empty_world =
     ((None, Some (ErrExternal ''chart is not valid'')), world1)"
  by (simp add: Unpack_def manifests_example extract_example scan_example NewChart_def)

lemma broken_image_env_sel [simp]:
  "Sum256 broken_image_env = toy_sum" "temp_root broken_image_env = ''/tmp''"
  "next_random broken_image_env n = replicate (Suc n) CHR ''7''"
  "untar_content broken_image_env = untar_content example_env"
  "load_chart broken_image_env p = None"
  "inspect_image broken_image_env p = Inl (ErrExternal ''not an image archive'')"
  by (simp_all add: broken_image_env_def example_env_def)




lemma broken_scan_env_sel [simp]:
  "Sum256 broken_scan_env = toy_sum" "temp_root broken_scan_env = ''/tmp''"
  "next_random broken_scan_env n = replicate (Suc n) CHR ''7''"
  "untar_content broken_scan_env [1] = untar_content example_env [1]"
  "untar_content broken_scan_env [2] =
     Inr [(''private'', Broken (ErrExternal ''permission denied'')), (''cainjector.tar'', File)]"
  "load_chart broken_scan_env p = None"
  by (simp_all add: broken_scan_env_def example_env_def)



section \<open>Image bundles\<close>

text \<open>
  C4. When the loop over the server artifacts succeeds, every component key holds
  exactly the descriptors of the image archives with that component name, artifact by
  artifact in the order the artifacts are processed and within an artifact in the
  order of discovery, each with the OS and architecture its artifact declares; a key
  is present only if it holds an entry. So the same stem in two server archives
  accumulates under one key, in processing order.
\<close>

theorem unpackServerImages_accumulates:
  assumes "unpackServerImagesFromRelease E s w = (Inr tarBundles, w')"
  shows "lookup tarBundles k =
           expected_bundle E (ArtifactsOfKind s ''server'')
             (discovered E (ArtifactsOfKind s ''server'') w) k \<and>
         (tarBundles k = None \<longleftrightarrow>
           expected_bundle E (ArtifactsOfKind s ''server'')
             (discovered E (ArtifactsOfKind s ''server'') w) k = [])"
  using server_loop_lookup [of E "ArtifactsOfKind s ''server''" Map.empty w tarBundles w' k] assms
  by (simp add: unpackServerImagesFromRelease_def lookup_def)

theorem unpackServerImages_accumulates_witness:
  "\<exists>tb. unpackServerImagesFromRelease example_env example_release world1 = (Inr tb, world3) \<and>
     tb ''cainjector'' = Some
       [example_tar ''/tmp/extracted-artifact-777/cainjector.tar'' ''amd64'' ''cainjector'',
        example_tar ''/tmp/extracted-artifact-77777/cainjector.tar'' ''arm64'' ''cainjector''] \<and>
     tb ''controller'' = Some
       [example_tar ''/tmp/extracted-artifact-777/controller.tar'' ''amd64'' ''controller''] \<and>
     tb ''webhook'' = None"
proof -
  from servers_run obtain tb where
    tb: "unpackServerImagesFromRelease example_env example_release world1 = (Inr tb, world3)"
    by blast
  have ex: "\<And>k. expected_bundle example_env [server_amd64, server_arm64]
      [[''/tmp/extracted-artifact-777/cainjector.tar'', ''/tmp/extracted-artifact-777/controller.tar''],
       [''/tmp/extracted-artifact-77777/cainjector.tar'']] k =
     (if k = ''cainjector'' then
        [example_tar ''/tmp/extracted-artifact-777/cainjector.tar'' ''amd64'' ''cainjector'',
         example_tar ''/tmp/extracted-artifact-77777/cainjector.tar'' ''arm64'' ''cainjector'']
      else if k = ''controller'' then
        [example_tar ''/tmp/extracted-artifact-777/controller.tar'' ''amd64'' ''controller'']
      else [])"
    by (simp add: expected_bundle_def descriptor_def example_tar_def component_example
        server_amd64_def server_arm64_def)
  note th = unpackServerImages_accumulates [OF tb, unfolded servers_example discovered_example ex]
  from th [of "''cainjector''"] have 1: "tb ''cainjector'' = Some
       [example_tar ''/tmp/extracted-artifact-777/cainjector.tar'' ''amd64'' ''cainjector'',
        example_tar ''/tmp/extracted-artifact-77777/cainjector.tar'' ''arm64'' ''cainjector'']"
    by (auto simp: lookup_def split: option.splits)
  from th [of "''controller''"] have 2: "tb ''controller'' = Some
       [example_tar ''/tmp/extracted-artifact-777/controller.tar'' ''amd64'' ''controller'']"
    by (auto simp: lookup_def split: option.splits)
  from th [of "''webhook''"] have 3: "tb ''webhook'' = None"
    by simp
  from tb 1 2 3 show ?thesis by blast
qed

section \<open>Unpack\<close>



text \<open>
  C7. On success the release version and the git commit reference of the result are
  the ones of the staged release's metadata.
\<close>

theorem Unpack_copies_version_and_commit:
  assumes "Unpack E s w = ((Some u, err), w')"
  shows "Unpacked_ReleaseVersion u = ReleaseVersion (metadata s) \<and>
         Unpacked_GitCommitRef u = GitCommitRef (metadata s)"
  using assms
  by (auto simp: Unpack_def Let_def split: sum.splits prod.splits option.splits)

theorem Unpack_copies_version_and_commit_witness:
  "\<exists>u. Unpack example_env example_release empty_world = ((Some u, None), world3) \<and>
     ReleaseVersion (metadata example_release) = ''v1.0.0'' \<and>
     GitCommitRef (metadata example_release) = ''0a1b2c3'' \<and>
     Unpacked_ReleaseVersion u = ''v1.0.0'' \<and> Unpacked_GitCommitRef u = ''0a1b2c3''"
proof -
  from unpack_run obtain u where
    u: "Unpack example_env example_release empty_world = ((Some u, None), world3)"
    by blast
  have m: "ReleaseVersion (metadata example_release) = ''v1.0.0''"
    "GitCommitRef (metadata example_release) = ''0a1b2c3''"
    by (simp_all add: example_release_def)
  from Unpack_copies_version_and_commit [OF u] m
  have "Unpacked_ReleaseVersion u = ''v1.0.0'' \<and> Unpacked_GitCommitRef u = ''0a1b2c3''"
    by simp
  with u m show ?thesis by blast
qed

text \<open>
  C8. In a run of \<^verbatim>\<open>Unpack\<close> the archive extractor is invoked on pairwise distinct
  destination directories, none of which existed before the run and each of which is
  a directory afterwards; on success there is one invocation per artifact, the
  manifests artifact first and then the server artifacts in order, each on the bytes
  of its own artifact.
\<close>

theorem Unpack_fresh_directories:
  assumes "Unpack E s w = (r, w')"
  shows "\<exists>new. untar_calls w' = untar_calls w @ new \<and> distinct (map fst new) \<and>
           (\<forall>d\<in>set (map fst new). \<not> path_exists w d \<and> trees w' d \<noteq> None) \<and>
           (\<forall>u. fst r = Some u \<longrightarrow>
              (\<exists>manifestsA. manifestArtifactForStaged s = Inr manifestsA \<and>
                 map (\<lambda>c. Inr (snd c, None)) new =
                   map NewReader (manifestsA # ArtifactsOfKind s ''server'')))"
proof (cases "manifestArtifactForStaged s")
  case (Inl e)
  with assms have "w' = w" "fst r = None" by (auto simp: Unpack_def)
  then show ?thesis by (intro exI [of _ "[]"]) simp
next
  case (Inr mA)
  obtain dir res w1 where x: "extractStagedArtifactToTempDir E mA w = ((dir, res), w1)"
    by (metis surj_pair)
  note st = extractStagedArtifactToTempDir_step [OF x]
  have stop: "w' = w1 \<and> fst r = None \<Longrightarrow> ?thesis"
  proof -
    assume a: "w' = w1 \<and> fst r = None"
    from st have "untar_calls w1 = untar_calls w \<or>
        (\<exists>bs. untar_calls w1 = untar_calls w @ [(dir, bs)] \<and> \<not> path_exists w dir \<and> trees w1 dir \<noteq> None)"
      by auto
    from at_most_one_call [OF this]
    obtain new where "untar_calls w1 = untar_calls w @ new" "distinct (map fst new)"
      "\<forall>d\<in>set (map fst new). \<not> path_exists w d \<and> trees w1 d \<noteq> None"
      by blast
    with a show ?thesis by auto
  qed
  show ?thesis
  proof (cases res)
    case (Some e)
    with assms Inr x have "w' = w1 \<and> fst r = None" by (auto simp: Unpack_def)
    then show ?thesis by (rule stop)
  next
    case None
    with st obtain bs where bs: "NewReader mA = Inr (bs, None)"
      "untar_calls w1 = untar_calls w @ [(dir, bs)]" "\<not> path_exists w dir" "trees w1 dir \<noteq> None"
      by auto
    obtain r2 w2 where sv: "unpackServerImagesFromRelease E s w1 = (r2, w2)" by fastforce
    then have sl: "server_loop E (ArtifactsOfKind s ''server'') Map.empty w1 = (r2, w2)"
      by (simp add: unpackServerImagesFromRelease_def)
    from server_loop_directories [OF sl] obtain new where new:
      "\<forall>p. trees w1 p \<noteq> None \<longrightarrow> trees w2 p \<noteq> None"
      "untar_calls w2 = untar_calls w1 @ new" "distinct (map fst new)"
      "\<forall>d\<in>set (map fst new). \<not> path_exists w1 d \<and> trees w2 d \<noteq> None"
      "\<forall>tb'. r2 = Inr tb' \<longrightarrow> map (\<lambda>c. Inr (snd c, None)) new = map NewReader (ArtifactsOfKind s ''server'')"
      by blast
    have early: "w' = w1 \<and> fst r = None \<or> w' = w2 \<and> (fst r = None \<or> (\<exists>tb'. r2 = Inr tb'))"
      using assms Inr x None sv
      by (auto simp: Unpack_def Let_def split: sum.splits)
    then show ?thesis
    proof
      assume "w' = w1 \<and> fst r = None"
      then show ?thesis by (rule stop)
    next
      assume late: "w' = w2 \<and> (fst r = None \<or> (\<exists>tb'. r2 = Inr tb'))"
      have ex1: "path_exists w1 dir" using bs(4) by (simp add: path_exists_def)
      with new(4) have notin: "dir \<notin> set (map fst new)" by blast
      let ?new = "(dir, bs) # new"
      have "untar_calls w' = untar_calls w @ ?new" using bs(2) new(2) late by simp
      moreover have "distinct (map fst ?new)" using notin new(3) by simp
      moreover have "\<forall>d\<in>set (map fst ?new). \<not> path_exists w d \<and> trees w' d \<noteq> None"
        using bs(3,4) new(1,4) st late by auto
      moreover have "\<forall>u. fst r = Some u \<longrightarrow>
              (\<exists>manifestsA. manifestArtifactForStaged s = Inr manifestsA \<and>
                 map (\<lambda>c. Inr (snd c, None)) ?new =
                   map NewReader (manifestsA # ArtifactsOfKind s ''server''))"
        using late new(5) bs(1) Inr by auto
      ultimately show ?thesis by blast
    qed
  qed
qed

theorem Unpack_fresh_directories_witness:
  "untar_calls (snd (Unpack example_env example_release empty_world)) =
     [(''/tmp/extracted-artifact-7'', [1]), (''/tmp/extracted-artifact-777'', [2]),
      (''/tmp/extracted-artifact-77777'', [3])] \<and>
   distinct (map fst (untar_calls (snd (Unpack example_env example_release empty_world)))) \<and>
   map NewReader (manifests_artifact # ArtifactsOfKind example_release ''server'') =
     [Inr ([1], None), Inr ([2], None), Inr ([3], None)]"
proof -
  let ?U = "Unpack example_env example_release empty_world"
  from unpack_run obtain u where u: "?U = ((Some u, None), world3)" by blast
  have c: "untar_calls (snd ?U) =
     [(''/tmp/extracted-artifact-7'', [1]), (''/tmp/extracted-artifact-777'', [2]),
      (''/tmp/extracted-artifact-77777'', [3])]"
    by (simp add: u world3_def world2_def world1_def)
  have "?U = (fst ?U, snd ?U)" by simp
  from Unpack_fresh_directories [OF this]
  have d: "distinct (map fst (untar_calls (snd ?U)))" by auto
  have r: "map NewReader (manifests_artifact # ArtifactsOfKind example_release ''server'') =
     [Inr ([1], None), Inr ([2], None), Inr ([3], None)]"
    by (simp add: servers_example manifests_artifact_def server_amd64_def server_arm64_def)
  from c d r show ?thesis by blast
qed

text \<open>
  A release with exactly one manifests artifact, which is fetched, verified and
  extracted successfully, and with no server artifact, for which \<^verbatim>\<open>Unpack\<close> still
  returns an error: the chart found in the manifests archive does not load.
\<close>

theorem Unpack_without_servers_counterexample:
  "ArtifactsOfKind manifests_only_release ''manifests'' = [manifests_artifact] \<and>
   ArtifactsOfKind manifests_only_release ''server'' = [] \<and>
   extractStagedArtifactToTempDir broken_chart_env manifests_artifact empty_world =
     ((''/tmp/extracted-artifact-7'', None), world1) \<and>
   Unpack broken_chart_env manifests_only_release empty_world =
     ((None, Some (ErrExternal ''chart is not valid'')), world1)"
  using manifests_example(4,5) extract_example(1) [of broken_chart_env] unpack_broken_chart
  by simp

text \<open>
  C9, with its hypotheses completed. For a staged release with exactly one manifests artifact that is
  fetched, verified and extracted successfully, whose extracted tree is scanned for
  charts and manifests without error and whose charts all load, and with no server
  artifact, \<^verbatim>\<open>Unpack\<close> succeeds, in the state the extraction left, and the component
  image bundles of the result are the empty map.
\<close>

theorem Unpack_without_servers:
  assumes "ArtifactsOfKind s ''manifests'' = [manifestsA]"
    and "ArtifactsOfKind s ''server'' = []"
    and "extractStagedArtifactToTempDir E manifestsA w = ((manifestsDir, None), w1)"
    and "recursiveFindWithExt w1 manifestsDir ''.tgz'' = Inr chartPaths"
    and "\<forall>p\<in>set chartPaths. load_chart E p = None"
    and "recursiveFindWithExt w1 manifestsDir ''.yaml'' = Inr yamlPaths"
  shows "\<exists>u. Unpack E s w = ((Some u, None), w1) \<and> ComponentImageBundles u = Map.empty \<and>
           Charts u = map Chart chartPaths \<and> YAMLs u = map YAML yamlPaths"
proof -
  have m: "manifestArtifactForStaged s = Inr manifestsA"
    using assms(1) by (simp add: manifestArtifactForStaged_def)
  have c: "chart_loop E chartPaths [] = Inr (map Chart chartPaths)"
    using chart_loop_ok [OF assms(5), of "[]"] by simp
  have sv: "unpackServerImagesFromRelease E s w1 = (Inr Map.empty, w1)"
    using assms(2) by (simp add: unpackServerImagesFromRelease_def)
  have y: "map NewYAML yamlPaths = map YAML yamlPaths"
    by (simp add: NewYAML_def)
  show ?thesis
    by (simp add: Unpack_def m assms(3,4,6) c sv y)
qed

theorem Unpack_without_servers_witness:
  "\<exists>u. Unpack example_env manifests_only_release empty_world = ((Some u, None), world1) \<and>
     ComponentImageBundles u = Map.empty \<and>
     Charts u = [Chart ''/tmp/extracted-artifact-7/deploy/chart.tgz''] \<and>
     YAMLs u = [YAML ''/tmp/extracted-artifact-7/deploy/install.yaml'']"
  using Unpack_without_servers [OF manifests_example(4,5) extract_example(1) [of example_env]
      scan_example(1) _ scan_example(2)]
  by simp

end
